theory Spec2Isabelle
  imports Main "HOL-Library.Word"
begin

unbundle bit_operations_syntax

section \<open>C integers\<close>

text \<open>
  The driver (\<^verbatim>\<open>pamir-ai-i2c-sound-main.c\<close>, present in two revisions) keeps its
  percentages and register bytes in \<^verbatim>\<open>u8\<close> variables and computes on them in
  \<^verbatim>\<open>int\<close>, after the usual integer promotion. A \<^verbatim>\<open>u8\<close> is an \<open>8 word\<close>; the
  promoted value is \<open>uint\<close> of it, an \<open>int\<close>; storing an \<^verbatim>\<open>int\<close> back into a
  \<^verbatim>\<open>u8\<close> keeps the low eight bits (\<open>to_u8\<close>). No intermediate value of the driver
  leaves the range of a 32-bit \<^verbatim>\<open>int\<close>: every operand is a byte times a constant
  below 128.
\<close>

type_synonym u8 = "8 word"

definition to_u8 :: "int \<Rightarrow> u8" where
  "to_u8 x = word_of_int x"

text \<open>The C operator \<^verbatim>\<open>/\<close> on \<^verbatim>\<open>int\<close> truncates towards zero.\<close>

definition c_div :: "int \<Rightarrow> int \<Rightarrow> int" where
  "c_div a b = sgn a * sgn b * (\<bar>a\<bar> div \<bar>b\<bar>)"

text \<open>The compound assignment \<^verbatim>\<open>h |= e\<close> on a \<^verbatim>\<open>u8\<close> variable \<^verbatim>\<open>h\<close>.\<close>

definition or_assign :: "u8 \<Rightarrow> int \<Rightarrow> u8" where
  "or_assign h e = to_u8 (uint h OR e)"

definition EINVAL :: int where
  "EINVAL = 22"

definition ENOMEM :: int where
  "ENOMEM = 12"

section \<open>The driver's data\<close>

text \<open>\<^verbatim>\<open>struct pamir_ai_i2c_sound_data\<close>: the two cached percentages. The
  \<^verbatim>\<open>client\<close> and \<^verbatim>\<open>dev\<close> pointers are the environment below.\<close>

record sound_data =
  volume :: u8
  input_gain :: u8

text \<open>\<^verbatim>\<open>struct reg_val\<close> is a pair (register, value).\<close>

type_synonym reg_val = "u8 \<times> u8"

section \<open>The environment: I2C bus, codec registers, kernel log\<close>

datatype bus_op = Write_byte u8 u8 | Read_byte u8

text \<open>What the driver prints with \<^verbatim>\<open>dev_info\<close> and \<^verbatim>\<open>dev_err\<close>, one constructor for
  each format string, carrying the printed arguments.\<close>

datatype kmsg =
    Volume_set u8 u8 u8
  | Input_gain_set u8 u8
  | Invalid_format_read
  | Invalid_page_or_register
  | Invalid_format_write
  | Invalid_parameters
  | Failed_select_page int int
  | Failed_read_register int int
  | Failed_write_register int int int int
  | Read_register int int int
  | Wrote_register int int int
  | Starting_init
  | Init_write_failed u8 u8 int
  | Init_wrote u8 u8
  | Init_completed
  | Sysfs_group_failed int
  | Initial_volume_failed int
  | Initial_gain_failed int

text \<open>
  Modelled from the spec: the register bus client and the codec behind it are the
  kernel's and the hardware's, not this repository's. The codec is a paged register
  file: register \<open>0x00\<close> of every page holds the page selection, every other register
  belongs to the selected page, and a read returns the byte last written. Transport
  errors are scripted: \<open>outcomes\<close> lists the result of each coming transfer, a negative
  entry being the errno that transfer fails with; a transfer with no entry succeeds.
  \<open>xfers\<close> records every transfer the driver issues, failed ones included, and
  \<open>dmesg\<close> the messages it prints.
\<close>

record env =
  outcomes :: "int list"
  page :: u8
  regs :: "u8 \<Rightarrow> u8 \<Rightarrow> u8"
  xfers :: "bus_op list"
  dmesg :: "kmsg list"

definition next_outcome :: "env \<Rightarrow> int" where
  "next_outcome e = (case outcomes e of [] \<Rightarrow> 0 | x # _ \<Rightarrow> x)"

definition issue :: "env \<Rightarrow> bus_op \<Rightarrow> env" where
  "issue e t = e\<lparr>outcomes := tl (outcomes e), xfers := xfers e @ [t]\<rparr>"

definition store_reg :: "env \<Rightarrow> u8 \<Rightarrow> u8 \<Rightarrow> env" where
  "store_reg e reg val =
     (if reg = 0 then e\<lparr>page := val\<rparr>
      else e\<lparr>regs := (regs e)(page e := (regs e (page e))(reg := val))\<rparr>)"

definition load_reg :: "env \<Rightarrow> u8 \<Rightarrow> u8" where
  "load_reg e reg = (if reg = 0 then page e else regs e (page e) reg)"

text \<open>\<^verbatim>\<open>i2c_smbus_write_byte_data\<close>: 0 on success, a negative errno on failure.\<close>

definition i2c_smbus_write_byte_data :: "env \<Rightarrow> u8 \<Rightarrow> u8 \<Rightarrow> int \<times> env" where
  "i2c_smbus_write_byte_data e reg val =
     (if next_outcome e < 0 then (next_outcome e, issue e (Write_byte reg val))
      else (0, store_reg (issue e (Write_byte reg val)) reg val))"

text \<open>\<^verbatim>\<open>i2c_smbus_read_byte_data\<close>: the byte read, or a negative errno.\<close>

definition i2c_smbus_read_byte_data :: "env \<Rightarrow> u8 \<Rightarrow> int \<times> env" where
  "i2c_smbus_read_byte_data e reg =
     (if next_outcome e < 0 then (next_outcome e, issue e (Read_byte reg))
      else (uint (load_reg e reg), issue e (Read_byte reg)))"

definition dev_info :: "env \<Rightarrow> kmsg \<Rightarrow> env" where
  "dev_info e m = e\<lparr>dmesg := dmesg e @ [m]\<rparr>"

definition dev_err :: "env \<Rightarrow> kmsg \<Rightarrow> env" where
  "dev_err e m = e\<lparr>dmesg := dmesg e @ [m]\<rparr>"

text \<open>The statement pair \<^verbatim>\<open>ret = i2c_smbus_write_byte_data(...); if (ret < 0) return ret;\<close>
  repeated for each listed register in turn, ending in \<^verbatim>\<open>return 0\<close>.\<close>

fun write_regs :: "env \<Rightarrow> reg_val list \<Rightarrow> int \<times> env" where
  "write_regs e [] = (0, e)"
| "write_regs e ((reg, val) # rest) =
     (case i2c_smbus_write_byte_data e reg val of
        (ret, e') \<Rightarrow> if ret < 0 then (ret, e') else write_regs e' rest)"

section \<open>Volume\<close>

text \<open>The clamp at the head of both setters. The argument is a \<^verbatim>\<open>u8\<close>, so its second
  test never holds.\<close>

definition clamp_percent :: "u8 \<Rightarrow> u8" where
  "clamp_percent p = (if uint p > 100 then 100 else if uint p < 0 then 0 else p)"

text \<open>The forward volume curve, the \<^verbatim>\<open>if (volume == 0) ... else ...\<close> block of
  \<^verbatim>\<open>pamir_ai_i2c_sound_set_volume\<close>: the pair \<^verbatim>\<open>(hp_val, dac_val)\<close>.\<close>

definition encode_volume :: "u8 \<Rightarrow> u8 \<times> u8" where
  "encode_volume vol =
     (if uint vol = 0 then (0x40, 0x00)
      else
        if uint vol \<le> 20 then
          (or_assign 0x00 (0x3A - c_div ((uint vol - 1) * (0x3A - 0x00)) 19), 0xA0)
        else if uint vol \<le> 60 then
          (or_assign 0x00 (c_div ((uint vol - 21) * 0x14) 39), 0x00)
        else
          (or_assign 0x00 (0x14 + c_div ((uint vol - 61) * (0x1D - 0x14)) 39),
           if uint vol > 90 then to_u8 (0x04 + c_div ((uint vol - 91) * (0x10 - 0x04)) 9)
           else 0x00))"

definition pamir_ai_i2c_sound_set_volume ::
  "sound_data \<Rightarrow> env \<Rightarrow> u8 \<Rightarrow> int \<times> sound_data \<times> env" where
  "pamir_ai_i2c_sound_set_volume data e vol0 =
     (let vol = clamp_percent vol0;
          data' = data\<lparr>volume := vol\<rparr>;
          hp_val = fst (encode_volume vol);
          dac_val = snd (encode_volume vol)
      in case write_regs e
                [(0x00, 0x01), (0x10, hp_val), (0x11, hp_val), (0x12, hp_val), (0x13, hp_val),
                 (0x00, 0x00), (0x41, dac_val), (0x42, dac_val)] of
           (ret, e') \<Rightarrow>
             if ret < 0 then (ret, data', e')
             else (0, data', dev_info e' (Volume_set vol hp_val dac_val)))"

text \<open>The inverse volume curve: \<^verbatim>\<open>pamir_ai_i2c_sound_get_volume\<close> from the mute test
  to the final cap, as a function of the two bytes read.\<close>

definition decode_volume :: "u8 \<Rightarrow> u8 \<Rightarrow> u8" where
  "decode_volume hp_raw dac_val =
     (let is_muted = (hp_raw AND 0x40 \<noteq> 0);
          hp_val = hp_raw AND 0x3F;
          h = uint hp_val;
          d = uint dac_val;
          vol =
            (if is_muted then 0
             else if d \<ge> 0x04 \<and> d \<le> 0x10 then
               to_u8 (91 + c_div ((d - 0x04) * 9) (0x10 - 0x04))
             else if h \<ge> 0x14 \<and> h \<le> 0x1D then
               (let v = to_u8 (61 + c_div ((h - 0x14) * 39) (0x1D - 0x14))
                in if uint v > 90 then 90 else v)
             else if h \<le> 0x14 \<and> d = 0x00 then
               to_u8 (21 + c_div (h * 39) 0x14)
             else if h \<ge> 0x00 \<and> h \<le> 0x3A \<and> d = 0xA0 then
               to_u8 (1 + c_div ((0x3A - h) * 19) (0x3A - 0x00))
             else
               if h \<le> 0x00 then 21
               else if h \<le> 0x14 then to_u8 (21 + c_div (h * 39) 0x14)
               else if h \<le> 0x1D then to_u8 (61 + c_div ((h - 0x14) * 39) (0x1D - 0x14))
               else 20)
      in if uint vol > 100 then 100 else vol)"

definition pamir_ai_i2c_sound_get_volume :: "sound_data \<Rightarrow> env \<Rightarrow> int \<times> sound_data \<times> env" where
  "pamir_ai_i2c_sound_get_volume data e =
     (case i2c_smbus_write_byte_data e 0x00 0x01 of (ret1, e1) \<Rightarrow>
        if ret1 < 0 then (ret1, data, e1)
        else case i2c_smbus_read_byte_data e1 0x10 of (ret2, e2) \<Rightarrow>
          if ret2 < 0 then (ret2, data, e2)
          else case i2c_smbus_write_byte_data e2 0x00 0x00 of (ret3, e3) \<Rightarrow>
            if ret3 < 0 then (ret3, data, e3)
            else case i2c_smbus_read_byte_data e3 0x41 of (ret4, e4) \<Rightarrow>
              if ret4 < 0 then (ret4, data, e4)
              else (0, data\<lparr>volume := decode_volume (to_u8 ret2) (to_u8 ret4)\<rparr>, e4))"

section \<open>Input gain\<close>

text \<open>The forward gain curve of the later revision: the low range ends at register
  \<open>0x29\<close>.\<close>

definition encode_gain :: "u8 \<Rightarrow> u8" where
  "encode_gain gain =
     (if uint gain < 20 then to_u8 (0x68 - c_div (uint gain * (0x68 - 0x29)) 19)
      else to_u8 (c_div ((uint gain - 20) * 0x28) 80))"

definition pamir_ai_i2c_sound_set_input_gain ::
  "sound_data \<Rightarrow> env \<Rightarrow> u8 \<Rightarrow> int \<times> sound_data \<times> env" where
  "pamir_ai_i2c_sound_set_input_gain data e gain0 =
     (let gain = clamp_percent gain0;
          data' = data\<lparr>input_gain := gain\<rparr>;
          adc_val = encode_gain gain
      in case write_regs e [(0x00, 0x00), (0x53, adc_val), (0x54, adc_val)] of
           (ret, e') \<Rightarrow>
             if ret < 0 then (ret, data', e')
             else (0, data', dev_info e' (Input_gain_set gain adc_val)))"

text \<open>The inverse gain curve of the later revision, from the masking of the byte read.\<close>

definition decode_gain :: "u8 \<Rightarrow> u8" where
  "decode_gain raw =
     (let adc_val = to_u8 (uint raw AND 0x7F);
          a = uint adc_val
      in if a \<ge> 0x68 then 0
         else if a \<le> 0x28 then to_u8 (20 + c_div (a * 80) 0x28)
         else to_u8 (c_div ((0x68 - a) * 19) (0x68 - 0x29)))"

definition pamir_ai_i2c_sound_get_input_gain ::
  "sound_data \<Rightarrow> env \<Rightarrow> int \<times> sound_data \<times> env" where
  "pamir_ai_i2c_sound_get_input_gain data e =
     (case i2c_smbus_write_byte_data e 0x00 0x00 of (ret1, e1) \<Rightarrow>
        if ret1 < 0 then (ret1, data, e1)
        else case i2c_smbus_read_byte_data e1 0x53 of (ret2, e2) \<Rightarrow>
          if ret2 < 0 then (ret2, data, e2)
          else (0, data\<lparr>input_gain := decode_gain (to_u8 ret2)\<rparr>, e2))"

subsection \<open>The earlier revision of the gain curve\<close>

text \<open>The other copy of the driver has another initialisation table and this gain
  curve, whose two ranges meet at register \<open>0x00\<close>; its volume code is the same.\<close>

definition encode_gain_legacy :: "u8 \<Rightarrow> u8" where
  "encode_gain_legacy gain =
     (if uint gain \<le> 20 then to_u8 (0x68 - c_div (uint gain * (0x68 - 0x00)) 20)
      else to_u8 (c_div ((uint gain - 20) * 0x28) 80))"

definition decode_gain_legacy :: "u8 \<Rightarrow> u8" where
  "decode_gain_legacy raw =
     (let adc_val = to_u8 (uint raw AND 0x7F);
          a = uint adc_val
      in if a \<ge> 0x68 then 0
         else if a > 0x00 then to_u8 (c_div ((0x68 - a) * 20) 0x68)
         else if a \<le> 0x28 then to_u8 (20 + c_div (a * 80) 0x28)
         else 100)"

section \<open>Initialisation\<close>

text \<open>The table \<^verbatim>\<open>init_sequence\<close> of the later revision.\<close>

definition init_sequence :: "reg_val list" where
  "init_sequence =
     [(0x00, 0x00), (0x01, 0x01),
      (0x00, 0x00), (0x0b, 0x81), (0x0c, 0x84), (0x12, 0x81), (0x13, 0x84),
      (0x19, 0x07), (0x1a, 0x81), (0x34, 0x10),
      (0x00, 0x01), (0x02, 0x09), (0x01, 0x08), (0x02, 0x01), (0x21, 0x00), (0x7b, 0x01),
      (0x00, 0x01), (0x14, 0x25), (0x0c, 0x08), (0x0d, 0x08), (0x0e, 0x08), (0x0f, 0x08),
      (0x09, 0x3c), (0x10, 0x07), (0x11, 0x07), (0x12, 0x07), (0x13, 0x07),
      (0x00, 0x01), (0x34, 0x80), (0x36, 0x80), (0x37, 0x80), (0x39, 0x80), (0x3b, 0x0f),
      (0x3c, 0x0f),
      (0x00, 0x00), (0x51, 0xc0), (0x52, 0x00),
      (0x00, 0x00), (0x53, 0x23), (0x54, 0x23), (0x41, 0x30), (0x42, 0x30),
      (0x00, 0x00), (0x41, 0x00), (0x42, 0x00), (0x3f, 0xd6), (0x40, 0x00)]"

text \<open>The \<^verbatim>\<open>for\<close> loop of \<^verbatim>\<open>pamir_ai_i2c_sound_probe\<close> over a table: the result is the
  errno the loop returns with, or 0 when it runs to the end.\<close>

fun init_loop :: "env \<Rightarrow> reg_val list \<Rightarrow> int \<times> env" where
  "init_loop e [] = (0, e)"
| "init_loop e ((reg, val) # rest) =
     (case i2c_smbus_write_byte_data e reg val of
        (ret, e') \<Rightarrow>
          if ret < 0 then (ret, dev_err e' (Init_write_failed reg val ret))
          else init_loop (dev_info e' (Init_wrote val reg)) rest)"

text \<open>\<^verbatim>\<open>pamir_ai_i2c_sound_probe\<close>. Whether \<^verbatim>\<open>devm_kzalloc\<close> succeeds and what
  \<^verbatim>\<open>sysfs_create_group\<close> returns are the kernel's to decide and are parameters here;
  the private data is returned as the probe leaves it.\<close>

definition pamir_ai_i2c_sound_probe ::
  "bool \<Rightarrow> int \<Rightarrow> env \<Rightarrow> int \<times> sound_data option \<times> env" where
  "pamir_ai_i2c_sound_probe alloc_ok sysfs_ret e =
     (if \<not> alloc_ok then (- ENOMEM, None, e)
      else
        let data = \<lparr>volume = 50, input_gain = 50\<rparr> in
        case init_loop (dev_info e Starting_init) init_sequence of (ret, e1) \<Rightarrow>
          if ret < 0 then (ret, Some data, e1)
          else
            let e2 = dev_info e1 Init_completed in
            if sysfs_ret < 0 then (sysfs_ret, Some data, dev_err e2 (Sysfs_group_failed sysfs_ret))
            else case pamir_ai_i2c_sound_set_volume data e2 (volume data) of (ret3, data3, e3) \<Rightarrow>
              if ret3 < 0 then (ret3, Some data3, dev_err e3 (Initial_volume_failed ret3))
              else case pamir_ai_i2c_sound_set_input_gain data3 e3 (input_gain data3) of
                (ret4, data4, e4) \<Rightarrow>
                  if ret4 < 0 then (ret4, Some data4, dev_err e4 (Initial_gain_failed ret4))
                  else (0, Some data4, e4))"

section \<open>Raw register access\<close>

text \<open>The text \<^verbatim>\<open>sprintf\<close> produces for \<^verbatim>\<open>"%d\n"\<close> on a value that is not negative.\<close>

fun decimal :: "nat \<Rightarrow> string" where
  "decimal n =
     (if n < 10 then [''0123456789'' ! n]
      else decimal (n div 10) @ [''0123456789'' ! (n mod 10)])"

definition sprintf_d_nl :: "int \<Rightarrow> string" where
  "sprintf_d_nl v = decimal (nat v) @ [CHR 0x0A]"

text \<open>\<^verbatim>\<open>register_access_show\<close>, from the result of \<^verbatim>\<open>sscanf(buf, "%d %d", ...)\<close>:
  \<open>None\<close> when it does not convert two numbers. The result is the count returned and
  the text left in the buffer.\<close>

definition register_access_show ::
  "env \<Rightarrow> (int \<times> int) option \<Rightarrow> int \<times> string option \<times> env" where
  "register_access_show e parsed =
     (case parsed of
        None \<Rightarrow> (- EINVAL, None, dev_err e Invalid_format_read)
      | Some (pg, reg) \<Rightarrow>
          if pg < 0 \<or> pg > 255 \<or> reg < 0 \<or> reg > 255 then
            (- EINVAL, None, dev_err e Invalid_page_or_register)
          else case i2c_smbus_write_byte_data e 0x00 (to_u8 pg) of (ret, e1) \<Rightarrow>
            if ret < 0 then (ret, None, dev_err e1 (Failed_select_page pg ret))
            else case i2c_smbus_read_byte_data e1 (to_u8 reg) of (val, e2) \<Rightarrow>
              if val < 0 then (val, None, dev_err e2 (Failed_read_register reg val))
              else (int (length (sprintf_d_nl val)), Some (sprintf_d_nl val),
                    dev_info e2 (Read_register pg reg val)))"

text \<open>\<^verbatim>\<open>register_access_store\<close>, from the result of
  \<^verbatim>\<open>sscanf(buf, "%d %d %d", ...)\<close> and the byte count of the request.\<close>

definition register_access_store ::
  "env \<Rightarrow> (int \<times> int \<times> int) option \<Rightarrow> nat \<Rightarrow> int \<times> env" where
  "register_access_store e parsed count =
     (case parsed of
        None \<Rightarrow> (- EINVAL, dev_err e Invalid_format_write)
      | Some (pg, reg, val) \<Rightarrow>
          if pg < 0 \<or> pg > 255 \<or> reg < 0 \<or> reg > 255 \<or> val < 0 \<or> val > 255 then
            (- EINVAL, dev_err e Invalid_parameters)
          else case i2c_smbus_write_byte_data e 0x00 (to_u8 pg) of (ret, e1) \<Rightarrow>
            if ret < 0 then (ret, dev_err e1 (Failed_select_page pg ret))
            else case i2c_smbus_write_byte_data e1 (to_u8 reg) (to_u8 val) of (ret2, e2) \<Rightarrow>
              if ret2 < 0 then (ret2, dev_err e2 (Failed_write_register val pg reg ret2))
              else (int count, dev_info e2 (Wrote_register val pg reg)))"

section \<open>Fixtures and the spec's formula\<close>

text \<open>A codec whose registers all hold zero, with page 0 selected, nothing transferred
  or printed yet, and the given script of transfer outcomes.\<close>

definition fresh_codec :: "int list \<Rightarrow> env" where
  "fresh_codec script =
     \<lparr>outcomes = script, page = 0, regs = (\<lambda>pg reg. 0), xfers = [], dmesg = []\<rparr>"

text \<open>The transfer with index \<open>k\<close> is the first one the script lets fail.\<close>

definition fails_first_at :: "int list \<Rightarrow> nat \<Rightarrow> bool" where
  "fails_first_at script k \<longleftrightarrow>
     k < length script \<and> script ! k < 0 \<and> list_all (\<lambda>x. 0 \<le> x) (take k script)"

text \<open>None of the first \<open>n\<close> transfers fails.\<close>

definition none_fails :: "int list \<Rightarrow> nat \<Rightarrow> bool" where
  "none_fails script n \<longleftrightarrow> list_all (\<lambda>x. 0 \<le> x) (take n script)"

definition write_ops :: "reg_val list \<Rightarrow> bus_op list" where
  "write_ops tbl = map (\<lambda>(reg, val). Write_byte reg val) tbl"

text \<open>The interpolation formula as the specification words it:
  \<^verbatim>\<open>value = low + (percent - range_low) * (high - low) / (range_span)\<close>, truncating
  towards zero.\<close>

definition spec_linear :: "int \<Rightarrow> int \<Rightarrow> int \<Rightarrow> int \<Rightarrow> int \<Rightarrow> int" where
  "spec_linear low high range_low range_span percent =
     low + c_div ((percent - range_low) * (high - low)) range_span"

text \<open>No transfer of the script fails: the transport works for good.\<close>

definition never_fails :: "env \<Rightarrow> bool" where
  "never_fails e \<longleftrightarrow> list_all (\<lambda>x. 0 \<le> x) (outcomes e)"

text \<open>Both cached percentages are percentages.\<close>

definition cache_ok :: "sound_data \<Rightarrow> bool" where
  "cache_ok data \<longleftrightarrow> uint (volume data) \<le> 100 \<and> uint (input_gain data) \<le> 100"

text \<open>The rows of the specification's volume table, numbered from the mute row.\<close>

definition volume_tier :: "u8 \<Rightarrow> nat" where
  "volume_tier p =
     (if uint p = 0 then 0 else if uint p \<le> 20 then 1 else if uint p \<le> 60 then 2
      else if uint p \<le> 90 then 3 else 4)"

text \<open>The register writes \<^verbatim>\<open>pamir_ai_i2c_sound_set_volume\<close> issues for a clamped
  percentage, in its order, and those of \<^verbatim>\<open>pamir_ai_i2c_sound_set_input_gain\<close>.\<close>

definition volume_writes :: "u8 \<Rightarrow> reg_val list" where
  "volume_writes p =
     [(0x00, 0x01), (0x10, fst (encode_volume p)), (0x11, fst (encode_volume p)),
      (0x12, fst (encode_volume p)), (0x13, fst (encode_volume p)),
      (0x00, 0x00), (0x41, snd (encode_volume p)), (0x42, snd (encode_volume p))]"

definition gain_writes :: "u8 \<Rightarrow> reg_val list" where
  "gain_writes p = [(0x00, 0x00), (0x53, encode_gain p), (0x54, encode_gain p)]"

text \<open>The scenario \<^verbatim>\<open>set_volume(p)\<close> followed by \<^verbatim>\<open>get_volume()\<close> on the same device,
  and the two curves composed.\<close>

definition set_then_get_volume :: "sound_data \<Rightarrow> env \<Rightarrow> u8 \<Rightarrow> int \<times> sound_data \<times> env" where
  "set_then_get_volume d e p =
     (case pamir_ai_i2c_sound_set_volume d e p of
        (ret, d1, e1) \<Rightarrow> pamir_ai_i2c_sound_get_volume d1 e1)"

definition round_trip_volume :: "u8 \<Rightarrow> u8" where
  "round_trip_volume p = decode_volume (fst (encode_volume p)) (snd (encode_volume p))"

section \<open>Arithmetic of the C expressions\<close>

lemma c_div_nonneg: "0 \<le> a \<Longrightarrow> 0 < b \<Longrightarrow> c_div a b = a div b"
  by (simp add: c_div_def sgn_if)

lemma c_div_nonpos: "a \<le> 0 \<Longrightarrow> 0 < b \<Longrightarrow> c_div a b = - ((- a) div b)"
  by (simp add: c_div_def sgn_if)

lemma uint_to_u8: "0 \<le> x \<Longrightarrow> x < 256 \<Longrightarrow> uint (to_u8 x) = x"
  by (simp add: to_u8_def uint_word_of_int)

lemma uint_u8_lt: "uint (w :: u8) < 256"
  using uint_bounded [of w] by simp

lemma or_assign_zero: "or_assign 0 x = to_u8 x"
  by (simp add: or_assign_def)

lemma uint_gain_bits: "uint ((hp::u8) AND 0x3F) \<le> 63"
  using word_and_le1 [of hp "0x3F"] by (simp add: word_le_def)

lemma div_bounds:
  fixes a b c :: int
  assumes "0 \<le> a" "a \<le> c * b" "0 < b"
  shows "0 \<le> a div b \<and> a div b \<le> c"
proof -
  from assms have "a div b \<le> (c * b) div b" by (intro zdiv_mono1)
  with assms show ?thesis by (simp add: pos_imp_zdiv_nonneg_iff)
qed

section \<open>Transfers and their scripts\<close>

lemma fails_first_at_Nil: "\<not> fails_first_at [] k"
  by (simp add: fails_first_at_def)

lemma fails_first_at_0: "fails_first_at (x # xs) 0 \<longleftrightarrow> x < 0"
  by (simp add: fails_first_at_def)

lemma fails_first_at_Suc: "fails_first_at (x # xs) (Suc k) \<longleftrightarrow> 0 \<le> x \<and> fails_first_at xs k"
  by (auto simp add: fails_first_at_def)

lemma none_fails_Nil: "none_fails [] n"
  by (simp add: none_fails_def)

lemma none_fails_0: "none_fails xs 0"
  by (simp add: none_fails_def)

lemma none_fails_Suc: "none_fails (x # xs) (Suc n) \<longleftrightarrow> 0 \<le> x \<and> none_fails xs n"
  by (simp add: none_fails_def)

lemma write_byte_fst:
  "fst (i2c_smbus_write_byte_data e reg val) = (if next_outcome e < 0 then next_outcome e else 0)"
  by (simp add: i2c_smbus_write_byte_data_def)

lemma write_byte_outcomes:
  "outcomes (snd (i2c_smbus_write_byte_data e reg val)) = tl (outcomes e)"
  by (simp add: i2c_smbus_write_byte_data_def issue_def store_reg_def)

lemma write_byte_xfers:
  "xfers (snd (i2c_smbus_write_byte_data e reg val)) = xfers e @ [Write_byte reg val]"
  by (simp add: i2c_smbus_write_byte_data_def issue_def store_reg_def)

lemma write_byte_dmesg:
  "dmesg (snd (i2c_smbus_write_byte_data e reg val)) = dmesg e"
  by (simp add: i2c_smbus_write_byte_data_def issue_def store_reg_def)

lemma read_byte_fst_neg:
  "fst (i2c_smbus_read_byte_data e reg) < 0 \<longleftrightarrow> next_outcome e < 0"
  by (simp add: i2c_smbus_read_byte_data_def)

lemma read_byte_xfers:
  "xfers (snd (i2c_smbus_read_byte_data e reg)) = xfers e @ [Read_byte reg]"
  by (simp add: i2c_smbus_read_byte_data_def issue_def)

lemma read_byte_outcomes:
  "outcomes (snd (i2c_smbus_read_byte_data e reg)) = tl (outcomes e)"
  by (simp add: i2c_smbus_read_byte_data_def issue_def)

lemma write_regs_fail:
  "fails_first_at (outcomes e) k \<Longrightarrow> k < length tbl \<Longrightarrow>
     fst (write_regs e tbl) = outcomes e ! k \<and>
     xfers (snd (write_regs e tbl)) = xfers e @ write_ops (take (Suc k) tbl)"
proof (induction tbl arbitrary: e k)
  case Nil
  then show ?case by simp
next
  case (Cons rv tbl)
  obtain reg val where rv: "rv = (reg, val)" by (cases rv)
  obtain x xs where out: "outcomes e = x # xs"
    using Cons.prems(1) by (cases "outcomes e") (simp_all add: fails_first_at_Nil)
  obtain ret e' where w: "i2c_smbus_write_byte_data e reg val = (ret, e')"
    by (cases "i2c_smbus_write_byte_data e reg val")
  have ret: "ret = (if x < 0 then x else 0)"
    using write_byte_fst [of e reg val] w out by (simp add: next_outcome_def)
  have e': "outcomes e' = xs" "xfers e' = xfers e @ [Write_byte reg val]"
    using write_byte_outcomes [of e reg val] write_byte_xfers [of e reg val] w out by simp_all
  show ?case
  proof (cases k)
    case 0
    with Cons.prems out have "x < 0" by (simp add: fails_first_at_0)
    with 0 rv w ret out show ?thesis by (simp add: e' write_ops_def)
  next
    case (Suc j)
    with Cons.prems out have x: "0 \<le> x" and f: "fails_first_at (outcomes e') j" and j: "j < length tbl"
      by (simp_all add: fails_first_at_Suc e')
    from Cons.IH [OF f j] Suc rv w ret x out show ?thesis
      by (simp add: e' write_ops_def)
  qed
qed

lemma write_regs_ok:
  "none_fails (outcomes e) (length tbl) \<Longrightarrow>
     fst (write_regs e tbl) = 0 \<and>
     xfers (snd (write_regs e tbl)) = xfers e @ write_ops tbl"
proof (induction tbl arbitrary: e)
  case Nil
  then show ?case by (simp add: write_ops_def)
next
  case (Cons rv tbl)
  obtain reg val where rv: "rv = (reg, val)" by (cases rv)
  obtain ret e' where w: "i2c_smbus_write_byte_data e reg val = (ret, e')"
    by (cases "i2c_smbus_write_byte_data e reg val")
  have nx: "0 \<le> next_outcome e" and nf: "none_fails (tl (outcomes e)) (length tbl)"
    using Cons.prems by (cases "outcomes e"; simp add: next_outcome_def none_fails_Suc none_fails_Nil)+
  have ret: "ret = 0"
    using write_byte_fst [of e reg val] w nx by simp
  have e': "outcomes e' = tl (outcomes e)" "xfers e' = xfers e @ [Write_byte reg val]"
    using write_byte_outcomes [of e reg val] write_byte_xfers [of e reg val] w by simp_all
  from nf have "none_fails (outcomes e') (length tbl)" by (simp add: e')
  from Cons.IH [OF this] rv w ret show ?case
    by (simp add: e' write_ops_def)
qed

lemma write_regs_dmesg: "dmesg (snd (write_regs e tbl)) = dmesg e"
proof (induction tbl arbitrary: e)
  case Nil
  then show ?case by simp
next
  case (Cons rv tbl)
  obtain reg val where rv: "rv = (reg, val)" by (cases rv)
  obtain ret e' where w: "i2c_smbus_write_byte_data e reg val = (ret, e')"
    by (cases "i2c_smbus_write_byte_data e reg val")
  with write_byte_dmesg [of e reg val] have "dmesg e' = dmesg e" by simp
  with Cons.IH [of e'] rv w show ?case by simp
qed

section \<open>The initialisation loop\<close>

lemma init_loop_fail:
  "fails_first_at (outcomes e) k \<Longrightarrow> k < length tbl \<Longrightarrow>
     fst (init_loop e tbl) = outcomes e ! k \<and>
     xfers (snd (init_loop e tbl)) = xfers e @ write_ops (take (Suc k) tbl) \<and>
     last (dmesg (snd (init_loop e tbl))) =
       Init_write_failed (fst (tbl ! k)) (snd (tbl ! k)) (outcomes e ! k)"
proof (induction tbl arbitrary: e k)
  case Nil
  then show ?case by simp
next
  case (Cons rv tbl)
  obtain reg val where rv: "rv = (reg, val)" by (cases rv)
  obtain x xs where out: "outcomes e = x # xs"
    using Cons.prems(1) by (cases "outcomes e") (simp_all add: fails_first_at_Nil)
  obtain ret e' where w: "i2c_smbus_write_byte_data e reg val = (ret, e')"
    by (cases "i2c_smbus_write_byte_data e reg val")
  have ret: "ret = (if x < 0 then x else 0)"
    using write_byte_fst [of e reg val] w out by (simp add: next_outcome_def)
  have e': "outcomes e' = xs" "xfers e' = xfers e @ [Write_byte reg val]"
    using write_byte_outcomes [of e reg val] write_byte_xfers [of e reg val] w out by simp_all
  show ?case
  proof (cases k)
    case 0
    with Cons.prems out have "x < 0" by (simp add: fails_first_at_0)
    with 0 rv w ret out show ?thesis by (simp add: e' write_ops_def dev_err_def)
  next
    case (Suc j)
    let ?e = "dev_info e' (Init_wrote val reg)"
    have e'': "outcomes ?e = xs" "xfers ?e = xfers e @ [Write_byte reg val]"
      by (simp_all add: dev_info_def e')
    from Suc Cons.prems out have x: "0 \<le> x" and f: "fails_first_at (outcomes ?e) j" and j: "j < length tbl"
      by (simp_all add: fails_first_at_Suc e'')
    from Cons.IH [OF f j] Suc rv w ret x out show ?thesis
      by (simp add: e'' write_ops_def)
  qed
qed

lemma init_loop_ok:
  "none_fails (outcomes e) (length tbl) \<Longrightarrow>
     fst (init_loop e tbl) = 0 \<and>
     xfers (snd (init_loop e tbl)) = xfers e @ write_ops tbl"
proof (induction tbl arbitrary: e)
  case Nil
  then show ?case by (simp add: write_ops_def)
next
  case (Cons rv tbl)
  obtain reg val where rv: "rv = (reg, val)" by (cases rv)
  obtain ret e' where w: "i2c_smbus_write_byte_data e reg val = (ret, e')"
    by (cases "i2c_smbus_write_byte_data e reg val")
  have nx: "0 \<le> next_outcome e" and nf: "none_fails (tl (outcomes e)) (length tbl)"
    using Cons.prems by (cases "outcomes e"; simp add: next_outcome_def none_fails_Suc none_fails_Nil)+
  have ret: "ret = 0"
    using write_byte_fst [of e reg val] w nx by simp
  let ?e = "dev_info e' (Init_wrote val reg)"
  have e': "outcomes ?e = tl (outcomes e)" "xfers ?e = xfers e @ [Write_byte reg val]"
    using write_byte_outcomes [of e reg val] write_byte_xfers [of e reg val] w
    by (simp_all add: dev_info_def)
  from nf have "none_fails (outcomes ?e) (length tbl)" by (simp add: e')
  from Cons.IH [OF this] rv w ret show ?case
    by (simp add: e' write_ops_def)
qed

lemma length_init_sequence: "length init_sequence = 47"
  by (simp add: init_sequence_def)

text \<open>
  C7. When the write at table index \<open>i\<close> is the first to fail, the initialisation loop
  has issued the writes of the entries \<open>0..i\<close> in table order and nothing after them,
  it returns the errno of that write, and the message it prints names the register and
  the value of the failing entry; the probe returns the same errno with the same
  transfers. When none of the writes fails, the loop issues every entry once, in order.
\<close>

theorem init_sequence_aborts_at_first_failure:
  "(fails_first_at (outcomes e) i \<and> i < length init_sequence \<longrightarrow>
      fst (init_loop e init_sequence) = outcomes e ! i \<and>
      fst (init_loop e init_sequence) < 0 \<and>
      xfers (snd (init_loop e init_sequence)) = xfers e @ write_ops (take (Suc i) init_sequence) \<and>
      last (dmesg (snd (init_loop e init_sequence))) =
        Init_write_failed (fst (init_sequence ! i)) (snd (init_sequence ! i)) (outcomes e ! i) \<and>
      fst (pamir_ai_i2c_sound_probe True sysfs_ret e) = outcomes e ! i \<and>
      xfers (snd (snd (pamir_ai_i2c_sound_probe True sysfs_ret e))) =
        xfers e @ write_ops (take (Suc i) init_sequence)) \<and>
   (none_fails (outcomes e) (length init_sequence) \<longrightarrow>
      fst (init_loop e init_sequence) = 0 \<and>
      xfers (snd (init_loop e init_sequence)) = xfers e @ write_ops init_sequence)"
proof (intro conjI impI)
  assume a: "fails_first_at (outcomes e) i \<and> i < length init_sequence"
  then have f: "fails_first_at (outcomes e) i" and i: "i < length init_sequence" by simp_all
  from f have neg: "outcomes e ! i < 0" by (simp add: fails_first_at_def)
  note r = init_loop_fail [OF f i]
  from r show "fst (init_loop e init_sequence) = outcomes e ! i" by simp
  with neg show "fst (init_loop e init_sequence) < 0" by simp
  from r show "xfers (snd (init_loop e init_sequence)) = xfers e @ write_ops (take (Suc i) init_sequence)"
    by simp
  from r show "last (dmesg (snd (init_loop e init_sequence))) =
        Init_write_failed (fst (init_sequence ! i)) (snd (init_sequence ! i)) (outcomes e ! i)" by simp
  let ?e = "dev_info e Starting_init"
  have oe: "outcomes ?e = outcomes e" "xfers ?e = xfers e" by (simp_all add: dev_info_def)
  from f have f': "fails_first_at (outcomes ?e) i" by (simp add: oe)
  note r' = init_loop_fail [OF f' i]
  obtain ret e1 where l: "init_loop ?e init_sequence = (ret, e1)"
    by (cases "init_loop ?e init_sequence")
  with r' neg have ret: "ret = outcomes e ! i" "ret < 0"
    and x: "xfers e1 = xfers e @ write_ops (take (Suc i) init_sequence)"
    by (simp_all add: oe)
  from l ret show "fst (pamir_ai_i2c_sound_probe True sysfs_ret e) = outcomes e ! i"
    by (simp add: pamir_ai_i2c_sound_probe_def)
  from l ret x show "xfers (snd (snd (pamir_ai_i2c_sound_probe True sysfs_ret e))) =
        xfers e @ write_ops (take (Suc i) init_sequence)"
    by (simp add: pamir_ai_i2c_sound_probe_def)
next
  assume n: "none_fails (outcomes e) (length init_sequence)"
  from init_loop_ok [OF n] show "fst (init_loop e init_sequence) = 0" by simp
  from init_loop_ok [OF n] show "xfers (snd (init_loop e init_sequence)) = xfers e @ write_ops init_sequence"
    by simp
qed

theorem init_sequence_aborts_witness:
  "fails_first_at (outcomes (fresh_codec [0, 0, 0, 0, 0, 0, 0, 0, 0, 0, - 5])) 10 \<and>
   10 < length init_sequence \<and>
   fst (init_loop (fresh_codec [0, 0, 0, 0, 0, 0, 0, 0, 0, 0, - 5]) init_sequence) = - 5 \<and>
   xfers (snd (init_loop (fresh_codec [0, 0, 0, 0, 0, 0, 0, 0, 0, 0, - 5]) init_sequence)) =
     write_ops (take 11 init_sequence) \<and>
   last (dmesg (snd (init_loop (fresh_codec [0, 0, 0, 0, 0, 0, 0, 0, 0, 0, - 5]) init_sequence))) =
     Init_write_failed 0x00 0x01 (- 5) \<and>
   none_fails (outcomes (fresh_codec [])) (length init_sequence) \<and>
   fst (init_loop (fresh_codec []) init_sequence) = 0 \<and>
   xfers (snd (init_loop (fresh_codec []) init_sequence)) = write_ops init_sequence"
proof -
  have o: "outcomes (fresh_codec s) = s" "xfers (fresh_codec s) = []" for s
    by (simp_all add: fresh_codec_def)
  have h1: "fails_first_at (outcomes (fresh_codec [0, 0, 0, 0, 0, 0, 0, 0, 0, 0, - 5])) 10"
    by (simp add: o fails_first_at_def)
  have h2: "10 < length init_sequence" by (simp add: length_init_sequence)
  have h3: "none_fails (outcomes (fresh_codec [])) (length init_sequence)"
    by (simp add: o none_fails_Nil)
  have n: "init_sequence ! 10 = (0x00, 0x01)" by (simp add: init_sequence_def)
  from h1 h2 h3 
    init_sequence_aborts_at_first_failure [of "fresh_codec [0, 0, 0, 0, 0, 0, 0, 0, 0, 0, - 5]" 10 0]
    init_sequence_aborts_at_first_failure [of "fresh_codec []" 0 0]
  show ?thesis by (simp add: o n)
qed

section \<open>The setters\<close>

lemma write_regs_sign: "fst (write_regs e tbl) < 0 \<or> fst (write_regs e tbl) = 0"
proof (induction tbl arbitrary: e)
  case Nil
  show ?case by simp
next
  case (Cons rv tbl)
  obtain reg val where rv: "rv = (reg, val)" by (cases rv)
  obtain ret e' where w: "i2c_smbus_write_byte_data e reg val = (ret, e')"
    by (cases "i2c_smbus_write_byte_data e reg val")
  from Cons.IH [of e'] rv w show ?case by simp
qed

lemma set_volume_unfold:
  "pamir_ai_i2c_sound_set_volume d e p =
     (fst (write_regs e (volume_writes (clamp_percent p))),
      d\<lparr>volume := clamp_percent p\<rparr>,
      if fst (write_regs e (volume_writes (clamp_percent p))) < 0
      then snd (write_regs e (volume_writes (clamp_percent p)))
      else dev_info (snd (write_regs e (volume_writes (clamp_percent p))))
             (Volume_set (clamp_percent p) (fst (encode_volume (clamp_percent p)))
                (snd (encode_volume (clamp_percent p)))))"
proof -
  obtain ret e' where w: "write_regs e (volume_writes (clamp_percent p)) = (ret, e')"
    by (cases "write_regs e (volume_writes (clamp_percent p))")
  with write_regs_sign [of e "volume_writes (clamp_percent p)"] have "ret < 0 \<or> ret = 0" by simp
  with w show ?thesis
    unfolding pamir_ai_i2c_sound_set_volume_def Let_def volume_writes_def [symmetric]
    by auto
qed


lemma set_input_gain_unfold:
  "pamir_ai_i2c_sound_set_input_gain d e p =
     (fst (write_regs e (gain_writes (clamp_percent p))),
      d\<lparr>input_gain := clamp_percent p\<rparr>,
      if fst (write_regs e (gain_writes (clamp_percent p))) < 0
      then snd (write_regs e (gain_writes (clamp_percent p)))
      else dev_info (snd (write_regs e (gain_writes (clamp_percent p))))
             (Input_gain_set (clamp_percent p) (encode_gain (clamp_percent p))))"
proof -
  obtain ret e' where w: "write_regs e (gain_writes (clamp_percent p)) = (ret, e')"
    by (cases "write_regs e (gain_writes (clamp_percent p))")
  with write_regs_sign [of e "gain_writes (clamp_percent p)"] have "ret < 0 \<or> ret = 0" by simp
  with w show ?thesis
    unfolding pamir_ai_i2c_sound_set_input_gain_def Let_def gain_writes_def [symmetric]
    by auto
qed

lemma length_volume_writes: "length (volume_writes p) = 8"
  by (simp add: volume_writes_def)

lemma length_gain_writes: "length (gain_writes p) = 3"
  by (simp add: gain_writes_def)

lemma uint_clamp_percent: "uint (clamp_percent p) = min (uint p) 100"
  by (simp add: clamp_percent_def)

lemma xfers_dev_info: "xfers (dev_info e m) = xfers e"
  by (simp add: dev_info_def)

lemma fresh_codec_fields:
  "outcomes (fresh_codec s) = s" "xfers (fresh_codec s) = []" "page (fresh_codec s) = 0"
  "regs (fresh_codec s) pg reg = 0" "dmesg (fresh_codec s) = []"
  by (simp_all add: fresh_codec_def)

text \<open>
  C1, as the code has it. Both setters store the clamped percentage, \<open>min p 100\<close>, in
  the cache before they issue any write, and leave the other cached field alone: after
  the call the cache holds the clamped percentage whether the writes succeeded or not.
  When a write fails, the setter returns the errno of the first failing write and has
  issued the writes up to that one only; when none of its writes fails it returns 0 and
  has issued them all, in order.
\<close>

theorem setters_cache_before_writing:
  "volume (fst (snd (pamir_ai_i2c_sound_set_volume d e p))) = clamp_percent p \<and>
   input_gain (fst (snd (pamir_ai_i2c_sound_set_volume d e p))) = input_gain d \<and>
   input_gain (fst (snd (pamir_ai_i2c_sound_set_input_gain d e p))) = clamp_percent p \<and>
   volume (fst (snd (pamir_ai_i2c_sound_set_input_gain d e p))) = volume d \<and>
   uint (clamp_percent p) = min (uint p) 100 \<and>
   (fails_first_at (outcomes e) k \<and> k < 8 \<longrightarrow>
      fst (pamir_ai_i2c_sound_set_volume d e p) = outcomes e ! k \<and>
      fst (pamir_ai_i2c_sound_set_volume d e p) < 0 \<and>
      xfers (snd (snd (pamir_ai_i2c_sound_set_volume d e p))) =
        xfers e @ write_ops (take (Suc k) (volume_writes (clamp_percent p)))) \<and>
   (fails_first_at (outcomes e) k \<and> k < 3 \<longrightarrow>
      fst (pamir_ai_i2c_sound_set_input_gain d e p) = outcomes e ! k \<and>
      fst (pamir_ai_i2c_sound_set_input_gain d e p) < 0 \<and>
      xfers (snd (snd (pamir_ai_i2c_sound_set_input_gain d e p))) =
        xfers e @ write_ops (take (Suc k) (gain_writes (clamp_percent p)))) \<and>
   (none_fails (outcomes e) 8 \<longrightarrow>
      fst (pamir_ai_i2c_sound_set_volume d e p) = 0 \<and>
      xfers (snd (snd (pamir_ai_i2c_sound_set_volume d e p))) =
        xfers e @ write_ops (volume_writes (clamp_percent p))) \<and>
   (none_fails (outcomes e) 3 \<longrightarrow>
      fst (pamir_ai_i2c_sound_set_input_gain d e p) = 0 \<and>
      xfers (snd (snd (pamir_ai_i2c_sound_set_input_gain d e p))) =
        xfers e @ write_ops (gain_writes (clamp_percent p)))"
proof (intro conjI impI)
  show "volume (fst (snd (pamir_ai_i2c_sound_set_volume d e p))) = clamp_percent p"
    by (simp add: set_volume_unfold)
  show "input_gain (fst (snd (pamir_ai_i2c_sound_set_volume d e p))) = input_gain d"
    by (simp add: set_volume_unfold)
  show "input_gain (fst (snd (pamir_ai_i2c_sound_set_input_gain d e p))) = clamp_percent p"
    by (simp add: set_input_gain_unfold)
  show "volume (fst (snd (pamir_ai_i2c_sound_set_input_gain d e p))) = volume d"
    by (simp add: set_input_gain_unfold)
  show "uint (clamp_percent p) = min (uint p) 100"
    by (rule uint_clamp_percent)
next
  assume a: "fails_first_at (outcomes e) k \<and> k < 8"
  then have f: "fails_first_at (outcomes e) k"
    and k: "k < length (volume_writes (clamp_percent p))"
    by (simp_all add: length_volume_writes)
  from f have neg: "outcomes e ! k < 0" by (simp add: fails_first_at_def)
  note r = write_regs_fail [OF f k]
  from r show "fst (pamir_ai_i2c_sound_set_volume d e p) = outcomes e ! k"
    by (simp add: set_volume_unfold)
  with neg show "fst (pamir_ai_i2c_sound_set_volume d e p) < 0" by simp
  from r neg show "xfers (snd (snd (pamir_ai_i2c_sound_set_volume d e p))) =
        xfers e @ write_ops (take (Suc k) (volume_writes (clamp_percent p)))"
    by (simp add: set_volume_unfold)
next
  assume a: "fails_first_at (outcomes e) k \<and> k < 3"
  then have f: "fails_first_at (outcomes e) k"
    and k: "k < length (gain_writes (clamp_percent p))"
    by (simp_all add: length_gain_writes)
  from f have neg: "outcomes e ! k < 0" by (simp add: fails_first_at_def)
  note r = write_regs_fail [OF f k]
  from r show "fst (pamir_ai_i2c_sound_set_input_gain d e p) = outcomes e ! k"
    by (simp add: set_input_gain_unfold)
  with neg show "fst (pamir_ai_i2c_sound_set_input_gain d e p) < 0" by simp
  from r neg show "xfers (snd (snd (pamir_ai_i2c_sound_set_input_gain d e p))) =
        xfers e @ write_ops (take (Suc k) (gain_writes (clamp_percent p)))"
    by (simp add: set_input_gain_unfold)
next
  assume "none_fails (outcomes e) 8"
  then have n: "none_fails (outcomes e) (length (volume_writes (clamp_percent p)))"
    by (simp add: length_volume_writes)
  note r = write_regs_ok [OF n]
  from r show "fst (pamir_ai_i2c_sound_set_volume d e p) = 0"
    by (simp add: set_volume_unfold)
  from r show "xfers (snd (snd (pamir_ai_i2c_sound_set_volume d e p))) =
        xfers e @ write_ops (volume_writes (clamp_percent p))"
    by (simp add: set_volume_unfold xfers_dev_info)
next
  assume "none_fails (outcomes e) 3"
  then have n: "none_fails (outcomes e) (length (gain_writes (clamp_percent p)))"
    by (simp add: length_gain_writes)
  note r = write_regs_ok [OF n]
  from r show "fst (pamir_ai_i2c_sound_set_input_gain d e p) = 0"
    by (simp add: set_input_gain_unfold)
  from r show "xfers (snd (snd (pamir_ai_i2c_sound_set_input_gain d e p))) =
        xfers e @ write_ops (gain_writes (clamp_percent p))"
    by (simp add: set_input_gain_unfold xfers_dev_info)
qed

theorem setters_cache_witness:
  "fails_first_at (outcomes (fresh_codec [0, 0, - 5])) 2 \<and>
   fst (pamir_ai_i2c_sound_set_volume \<lparr>volume = 50, input_gain = 50\<rparr> (fresh_codec [0, 0, - 5]) 200) = - 5 \<and>
   volume (fst (snd (pamir_ai_i2c_sound_set_volume \<lparr>volume = 50, input_gain = 50\<rparr>
     (fresh_codec [0, 0, - 5]) 200))) = 100 \<and>
   length (xfers (snd (snd (pamir_ai_i2c_sound_set_volume \<lparr>volume = 50, input_gain = 50\<rparr>
     (fresh_codec [0, 0, - 5]) 200)))) = 3 \<and>
   fst (pamir_ai_i2c_sound_set_input_gain \<lparr>volume = 50, input_gain = 50\<rparr> (fresh_codec [0, 0, - 5]) 30) = - 5 \<and>
   input_gain (fst (snd (pamir_ai_i2c_sound_set_input_gain \<lparr>volume = 50, input_gain = 50\<rparr>
     (fresh_codec [0, 0, - 5]) 30))) = 30 \<and>
   none_fails (outcomes (fresh_codec [])) 8 \<and>
   fst (pamir_ai_i2c_sound_set_volume \<lparr>volume = 50, input_gain = 50\<rparr> (fresh_codec []) 80) = 0 \<and>
   length (xfers (snd (snd (pamir_ai_i2c_sound_set_volume \<lparr>volume = 50, input_gain = 50\<rparr>
     (fresh_codec []) 80)))) = 8 \<and>
   fst (pamir_ai_i2c_sound_set_input_gain \<lparr>volume = 50, input_gain = 50\<rparr> (fresh_codec []) 30) = 0"
proof -
  have h1: "fails_first_at (outcomes (fresh_codec [0, 0, - 5])) 2"
    by (simp add: fresh_codec_fields fails_first_at_def numeral_2_eq_2)
  have h2: "none_fails (outcomes (fresh_codec [])) n" for n
    by (simp add: fresh_codec_fields none_fails_Nil)
  have c: "clamp_percent 200 = 100" "clamp_percent 30 = 30"
    by (simp_all add: clamp_percent_def)
  from h1 h2 [of 8] h2 [of 3]
    setters_cache_before_writing [of "\<lparr>volume = 50, input_gain = 50\<rparr>" "fresh_codec [0, 0, - 5]" 200 2]
    setters_cache_before_writing [of "\<lparr>volume = 50, input_gain = 50\<rparr>" "fresh_codec [0, 0, - 5]" 30 2]
    setters_cache_before_writing [of "\<lparr>volume = 50, input_gain = 50\<rparr>" "fresh_codec []" 80 0]
    setters_cache_before_writing [of "\<lparr>volume = 50, input_gain = 50\<rparr>" "fresh_codec []" 30 0]
  show ?thesis
    by (simp add: fresh_codec_fields c write_ops_def volume_writes_def)
qed

text \<open>
  C1 as stated does not hold: with the cache at 50 and a bus whose first write fails
  with errno 5, \<^verbatim>\<open>set_volume(80)\<close> returns the error and leaves 80 in the cache;
  \<^verbatim>\<open>set_input_gain\<close> does the same.
\<close>

theorem set_volume_failure_changes_cache:
  "fst (pamir_ai_i2c_sound_set_volume \<lparr>volume = 50, input_gain = 50\<rparr> (fresh_codec [- 5]) 80) = - 5 \<and>
   volume (fst (snd (pamir_ai_i2c_sound_set_volume \<lparr>volume = 50, input_gain = 50\<rparr>
     (fresh_codec [- 5]) 80))) = 80 \<and>
   volume (fst (snd (pamir_ai_i2c_sound_set_volume \<lparr>volume = 50, input_gain = 50\<rparr>
     (fresh_codec [- 5]) 80))) \<noteq> volume \<lparr>volume = 50, input_gain = 50\<rparr> \<and>
   fst (pamir_ai_i2c_sound_set_input_gain \<lparr>volume = 50, input_gain = 50\<rparr> (fresh_codec [- 5]) 80) = - 5 \<and>
   input_gain (fst (snd (pamir_ai_i2c_sound_set_input_gain \<lparr>volume = 50, input_gain = 50\<rparr>
     (fresh_codec [- 5]) 80))) \<noteq> input_gain \<lparr>volume = 50, input_gain = 50\<rparr>"
  by (simp add: set_volume_unfold set_input_gain_unfold volume_writes_def gain_writes_def
      i2c_smbus_write_byte_data_def next_outcome_def fresh_codec_fields clamp_percent_def)

section \<open>Validation of raw register requests\<close>

lemma xfers_dev_err: "xfers (dev_err e m) = xfers e"
  by (simp add: dev_err_def)

lemma register_access_store_invalid:
  assumes "pg < 0 \<or> pg > 255 \<or> reg < 0 \<or> reg > 255 \<or> val < 0 \<or> val > 255"
  shows "register_access_store e (Some (pg, reg, val)) n = (- EINVAL, dev_err e Invalid_parameters)"
  using assms by (simp add: register_access_store_def)

lemma register_access_show_invalid:
  assumes "pg < 0 \<or> pg > 255 \<or> reg < 0 \<or> reg > 255"
  shows "register_access_show e (Some (pg, reg)) = (- EINVAL, None, dev_err e Invalid_page_or_register)"
  using assms by (simp add: register_access_show_def)

lemma register_access_store_valid:
  assumes "0 \<le> pg" "pg \<le> 255" "0 \<le> reg" "reg \<le> 255" "0 \<le> val" "val \<le> 255"
  shows "xfers (snd (register_access_store e (Some (pg, reg, val)) n)) =
           xfers e @ Write_byte 0x00 (to_u8 pg) #
             (if next_outcome e < 0 then [] else [Write_byte (to_u8 reg) (to_u8 val)])"
proof -
  obtain ret e1 where w1: "i2c_smbus_write_byte_data e 0x00 (to_u8 pg) = (ret, e1)"
    by (cases "i2c_smbus_write_byte_data e 0x00 (to_u8 pg)")
  obtain ret2 e2 where w2: "i2c_smbus_write_byte_data e1 (to_u8 reg) (to_u8 val) = (ret2, e2)"
    by (cases "i2c_smbus_write_byte_data e1 (to_u8 reg) (to_u8 val)")
  have r: "ret = (if next_outcome e < 0 then next_outcome e else 0)"
    and x1: "xfers e1 = xfers e @ [Write_byte 0x00 (to_u8 pg)]"
    using write_byte_fst [of e 0 "to_u8 pg"] write_byte_xfers [of e 0 "to_u8 pg"] w1 by simp_all
  have x2: "xfers e2 = xfers e1 @ [Write_byte (to_u8 reg) (to_u8 val)]"
    using write_byte_xfers [of e1 "to_u8 reg" "to_u8 val"] w2 by simp
  from assms w1 w2 r x1 x2 show ?thesis
    by (simp add: register_access_store_def xfers_dev_err xfers_dev_info)
qed

lemma register_access_show_valid:
  assumes "0 \<le> pg" "pg \<le> 255" "0 \<le> reg" "reg \<le> 255"
  shows "xfers (snd (snd (register_access_show e (Some (pg, reg))))) =
           xfers e @ Write_byte 0x00 (to_u8 pg) #
             (if next_outcome e < 0 then [] else [Read_byte (to_u8 reg)])"
proof -
  obtain ret e1 where w1: "i2c_smbus_write_byte_data e 0x00 (to_u8 pg) = (ret, e1)"
    by (cases "i2c_smbus_write_byte_data e 0x00 (to_u8 pg)")
  obtain v e2 where w2: "i2c_smbus_read_byte_data e1 (to_u8 reg) = (v, e2)"
    by (cases "i2c_smbus_read_byte_data e1 (to_u8 reg)")
  have r: "ret = (if next_outcome e < 0 then next_outcome e else 0)"
    and x1: "xfers e1 = xfers e @ [Write_byte 0x00 (to_u8 pg)]"
    using write_byte_fst [of e 0 "to_u8 pg"] write_byte_xfers [of e 0 "to_u8 pg"] w1 by simp_all
  have x2: "xfers e2 = xfers e1 @ [Read_byte (to_u8 reg)]"
    using read_byte_xfers [of e1 "to_u8 reg"] w2 by simp
  from assms w1 w2 r x1 x2 show ?thesis
    by (simp add: register_access_show_def xfers_dev_err xfers_dev_info)
qed

lemma register_access_select_fails:
  assumes "0 \<le> pg" "pg \<le> 255" "0 \<le> reg" "reg \<le> 255" "next_outcome e < 0"
  shows "fst (register_access_show e (Some (pg, reg))) = next_outcome e"
    and "0 \<le> val \<Longrightarrow> val \<le> 255 \<Longrightarrow>
           fst (register_access_store e (Some (pg, reg, val)) n) = next_outcome e"
  using assms
  by (simp_all add: register_access_show_def register_access_store_def
      i2c_smbus_write_byte_data_def)

text \<open>
  C8. A raw register request with a parsed parameter outside 0..255 (the page, the
  register, or the value of a write) fails with \<open>- EINVAL\<close>, that is \<open>-22\<close>, and
  issues no transfer. A request with every parameter in range first writes the page to
  register \<open>0x00\<close> and then issues the one read or write at the given register, the
  parameters reaching the bus unchanged; when the page selection itself fails, its errno
  is returned and the second transfer is not issued.
\<close>

theorem register_access_validates_first:
  "(pg < 0 \<or> pg > 255 \<or> reg < 0 \<or> reg > 255 \<or> val < 0 \<or> val > 255 \<longrightarrow>
      fst (register_access_store e (Some (pg, reg, val)) n) = - EINVAL \<and>
      xfers (snd (register_access_store e (Some (pg, reg, val)) n)) = xfers e) \<and>
   (pg < 0 \<or> pg > 255 \<or> reg < 0 \<or> reg > 255 \<longrightarrow>
      fst (register_access_show e (Some (pg, reg))) = - EINVAL \<and>
      xfers (snd (snd (register_access_show e (Some (pg, reg))))) = xfers e) \<and>
   (0 \<le> pg \<and> pg \<le> 255 \<and> 0 \<le> reg \<and> reg \<le> 255 \<and> 0 \<le> val \<and> val \<le> 255 \<longrightarrow>
      xfers (snd (register_access_store e (Some (pg, reg, val)) n)) =
        xfers e @ Write_byte 0x00 (to_u8 pg) #
          (if next_outcome e < 0 then [] else [Write_byte (to_u8 reg) (to_u8 val)]) \<and>
      (next_outcome e < 0 \<longrightarrow>
         fst (register_access_store e (Some (pg, reg, val)) n) = next_outcome e) \<and>
      uint (to_u8 val) = val) \<and>
   (0 \<le> pg \<and> pg \<le> 255 \<and> 0 \<le> reg \<and> reg \<le> 255 \<longrightarrow>
      xfers (snd (snd (register_access_show e (Some (pg, reg))))) =
        xfers e @ Write_byte 0x00 (to_u8 pg) #
          (if next_outcome e < 0 then [] else [Read_byte (to_u8 reg)]) \<and>
      (next_outcome e < 0 \<longrightarrow> fst (register_access_show e (Some (pg, reg))) = next_outcome e) \<and>
      uint (to_u8 pg) = pg \<and> uint (to_u8 reg) = reg) \<and>
   EINVAL = 22"
proof (intro conjI impI)
  assume a: "pg < 0 \<or> pg > 255 \<or> reg < 0 \<or> reg > 255 \<or> val < 0 \<or> val > 255"
  from register_access_store_invalid [OF a]
  show "fst (register_access_store e (Some (pg, reg, val)) n) = - EINVAL"
    and "xfers (snd (register_access_store e (Some (pg, reg, val)) n)) = xfers e"
    by (simp_all add: xfers_dev_err)
next
  assume a: "pg < 0 \<or> pg > 255 \<or> reg < 0 \<or> reg > 255"
  from register_access_show_invalid [OF a]
  show "fst (register_access_show e (Some (pg, reg))) = - EINVAL"
    and "xfers (snd (snd (register_access_show e (Some (pg, reg))))) = xfers e"
    by (simp_all add: xfers_dev_err)
next
  assume a: "0 \<le> pg \<and> pg \<le> 255 \<and> 0 \<le> reg \<and> reg \<le> 255 \<and> 0 \<le> val \<and> val \<le> 255"
  then show "xfers (snd (register_access_store e (Some (pg, reg, val)) n)) =
        xfers e @ Write_byte 0x00 (to_u8 pg) #
          (if next_outcome e < 0 then [] else [Write_byte (to_u8 reg) (to_u8 val)])"
    by (intro register_access_store_valid) simp_all
  from a show "uint (to_u8 val) = val" by (simp add: uint_to_u8)
  assume "next_outcome e < 0"
  with a show "fst (register_access_store e (Some (pg, reg, val)) n) = next_outcome e"
    by (intro register_access_select_fails) simp_all
next
  assume a: "0 \<le> pg \<and> pg \<le> 255 \<and> 0 \<le> reg \<and> reg \<le> 255"
  then show "xfers (snd (snd (register_access_show e (Some (pg, reg))))) =
        xfers e @ Write_byte 0x00 (to_u8 pg) #
          (if next_outcome e < 0 then [] else [Read_byte (to_u8 reg)])"
    by (intro register_access_show_valid) simp_all
  from a show "uint (to_u8 pg) = pg" "uint (to_u8 reg) = reg" by (simp_all add: uint_to_u8)
  assume "next_outcome e < 0"
  with a show "fst (register_access_show e (Some (pg, reg))) = next_outcome e"
    by (intro register_access_select_fails) simp_all
next
  show "EINVAL = 22" by (simp add: EINVAL_def)
qed

theorem register_access_validates_witness:
  "fst (register_access_store (fresh_codec []) (Some (256, 0, 0)) 8) = - 22 \<and>
   xfers (snd (register_access_store (fresh_codec []) (Some (256, 0, 0)) 8)) = [] \<and>
   fst (register_access_store (fresh_codec []) (Some (0, - 1, 0)) 8) = - 22 \<and>
   xfers (snd (register_access_store (fresh_codec []) (Some (0, - 1, 0)) 8)) = [] \<and>
   fst (register_access_store (fresh_codec []) (Some (0, 0, 256)) 8) = - 22 \<and>
   xfers (snd (register_access_store (fresh_codec []) (Some (0, 0, 256)) 8)) = [] \<and>
   fst (register_access_show (fresh_codec []) (Some (256, 0))) = - 22 \<and>
   xfers (snd (snd (register_access_show (fresh_codec []) (Some (0, - 1))))) = [] \<and>
   xfers (snd (register_access_store (fresh_codec []) (Some (0, 65, 128)) 9)) =
     [Write_byte 0 0, Write_byte 65 128] \<and>
   xfers (snd (snd (register_access_show (fresh_codec []) (Some (1, 16))))) =
     [Write_byte 0 1, Read_byte 16] \<and>
   xfers (snd (register_access_store (fresh_codec [- 5]) (Some (0, 65, 128)) 9)) =
     [Write_byte 0 0] \<and>
   fst (register_access_store (fresh_codec [- 5]) (Some (0, 65, 128)) 9) = - 5"
  using
    register_access_validates_first [of 256 0 0 "fresh_codec []" 8]
    register_access_validates_first [of 0 "- 1" 0 "fresh_codec []" 8]
    register_access_validates_first [of 0 0 256 "fresh_codec []" 8]
    register_access_validates_first [of 0 65 128 "fresh_codec []" 9]
    register_access_validates_first [of 1 16 0 "fresh_codec []" 0]
    register_access_validates_first [of 0 65 128 "fresh_codec [- 5]" 9]
  by (simp add: fresh_codec_fields next_outcome_def to_u8_def)

section \<open>The forward volume curve\<close>

lemma encode_volume_low_tier:
  assumes "1 \<le> uint p" "uint p \<le> 20"
  shows "encode_volume p = (to_u8 (spec_linear 0x3A 0x00 1 19 (uint p)), 0xA0)"
    and "uint (to_u8 (spec_linear 0x3A 0x00 1 19 (uint p))) = 0x3A - ((uint p - 1) * 0x3A) div 19"
    and "0 \<le> spec_linear 0x3A 0x00 1 19 (uint p) \<and> spec_linear 0x3A 0x00 1 19 (uint p) \<le> 0x3A"
proof -
  have b: "0 \<le> ((uint p - 1) * 58) div 19 \<and> ((uint p - 1) * 58) div 19 \<le> 58"
    using assms by (intro div_bounds) simp_all
  have s: "spec_linear 0x3A 0x00 1 19 (uint p) = 58 - ((uint p - 1) * 58) div 19"
    using assms by (simp add: spec_linear_def c_div_nonpos algebra_simps)
  from assms show "encode_volume p = (to_u8 (spec_linear 0x3A 0x00 1 19 (uint p)), 0xA0)"
    by (simp add: s encode_volume_def or_assign_zero c_div_nonneg)
  from b show "uint (to_u8 (spec_linear 0x3A 0x00 1 19 (uint p))) = 0x3A - ((uint p - 1) * 0x3A) div 19"
    by (simp add: s uint_to_u8)
  from b show "0 \<le> spec_linear 0x3A 0x00 1 19 (uint p) \<and> spec_linear 0x3A 0x00 1 19 (uint p) \<le> 0x3A"
    by (simp add: s)
qed

lemma encode_volume_medium_tier:
  assumes "21 \<le> uint p" "uint p \<le> 60"
  shows "encode_volume p = (to_u8 (spec_linear 0x00 0x14 21 39 (uint p)), 0x00)"
    and "uint (to_u8 (spec_linear 0x00 0x14 21 39 (uint p))) = ((uint p - 21) * 0x14) div 39"
    and "0 \<le> spec_linear 0x00 0x14 21 39 (uint p) \<and> spec_linear 0x00 0x14 21 39 (uint p) \<le> 0x14"
proof -
  have b: "0 \<le> ((uint p - 21) * 20) div 39 \<and> ((uint p - 21) * 20) div 39 \<le> 20"
    using assms by (intro div_bounds) simp_all
  have s: "spec_linear 0x00 0x14 21 39 (uint p) = ((uint p - 21) * 20) div 39"
    using assms by (simp add: spec_linear_def c_div_nonneg)
  from assms show "encode_volume p = (to_u8 (spec_linear 0x00 0x14 21 39 (uint p)), 0x00)"
    by (simp add: s encode_volume_def or_assign_zero c_div_nonneg)
  from b show "uint (to_u8 (spec_linear 0x00 0x14 21 39 (uint p))) = ((uint p - 21) * 0x14) div 39"
    by (simp add: s uint_to_u8)
  from b show "0 \<le> spec_linear 0x00 0x14 21 39 (uint p) \<and> spec_linear 0x00 0x14 21 39 (uint p) \<le> 0x14"
    by (simp add: s)
qed

lemma encode_volume_high_hp:
  assumes "61 \<le> uint p" "uint p \<le> 100"
  shows "fst (encode_volume p) = to_u8 (spec_linear 0x14 0x1D 61 39 (uint p))"
    and "uint (to_u8 (spec_linear 0x14 0x1D 61 39 (uint p))) = 0x14 + ((uint p - 61) * 9) div 39"
    and "0x14 \<le> spec_linear 0x14 0x1D 61 39 (uint p) \<and> spec_linear 0x14 0x1D 61 39 (uint p) \<le> 0x1D"
proof -
  have b: "0 \<le> ((uint p - 61) * 9) div 39 \<and> ((uint p - 61) * 9) div 39 \<le> 9"
    using assms by (intro div_bounds) simp_all
  have s: "spec_linear 0x14 0x1D 61 39 (uint p) = 20 + ((uint p - 61) * 9) div 39"
    using assms by (simp add: spec_linear_def c_div_nonneg)
  from assms show "fst (encode_volume p) = to_u8 (spec_linear 0x14 0x1D 61 39 (uint p))"
    by (simp add: s encode_volume_def or_assign_zero c_div_nonneg)
  from b show "uint (to_u8 (spec_linear 0x14 0x1D 61 39 (uint p))) = 0x14 + ((uint p - 61) * 9) div 39"
    by (simp add: s uint_to_u8)
  from b show "0x14 \<le> spec_linear 0x14 0x1D 61 39 (uint p) \<and> spec_linear 0x14 0x1D 61 39 (uint p) \<le> 0x1D"
    by (simp add: s)
qed

lemma encode_volume_high_dac:
  assumes "61 \<le> uint p" "uint p \<le> 90"
  shows "snd (encode_volume p) = 0x00"
  using assms by (simp add: encode_volume_def)

lemma encode_volume_boost_dac:
  assumes "91 \<le> uint p" "uint p \<le> 100"
  shows "snd (encode_volume p) = to_u8 (spec_linear 0x04 0x10 91 9 (uint p))"
    and "uint (to_u8 (spec_linear 0x04 0x10 91 9 (uint p))) = 0x04 + ((uint p - 91) * 12) div 9"
    and "0x04 \<le> spec_linear 0x04 0x10 91 9 (uint p) \<and> spec_linear 0x04 0x10 91 9 (uint p) \<le> 0x10"
proof -
  have b: "0 \<le> ((uint p - 91) * 12) div 9 \<and> ((uint p - 91) * 12) div 9 \<le> 12"
    using assms by (intro div_bounds) simp_all
  have s: "spec_linear 0x04 0x10 91 9 (uint p) = 4 + ((uint p - 91) * 12) div 9"
    using assms by (simp add: spec_linear_def c_div_nonneg)
  from assms show "snd (encode_volume p) = to_u8 (spec_linear 0x04 0x10 91 9 (uint p))"
    by (simp add: s encode_volume_def c_div_nonneg)
  from b show "uint (to_u8 (spec_linear 0x04 0x10 91 9 (uint p))) = 0x04 + ((uint p - 91) * 12) div 9"
    by (simp add: s uint_to_u8)
  from b show "0x04 \<le> spec_linear 0x04 0x10 91 9 (uint p) \<and> spec_linear 0x04 0x10 91 9 (uint p) \<le> 0x10"
    by (simp add: s)
qed

text \<open>
  C2, as the code has it. For every \<open>p\<close> in 1..100 the bytes of \<open>encode_volume p\<close> are
  the specification's interpolation formula, with truncating division, on these rows:
  for 1..20 the headphone byte runs from \<open>0x3A\<close> down to \<open>0x00\<close> and the DAC byte is
  \<open>0xA0\<close>; for 21..60 the headphone byte runs from \<open>0x00\<close> to \<open>0x14\<close> and the DAC byte is
  \<open>0x00\<close>; for 61..100 the headphone byte runs from \<open>0x14\<close> at 61 to \<open>0x1D\<close> at 100
  over a span of 39, passing \<open>0x1A\<close> at 90 and 91; the DAC byte is \<open>0x00\<close> for 61..90 and runs from \<open>0x04\<close> to \<open>0x10\<close>
  for 91..100.
\<close>

theorem encode_volume_tiers:
  "(1 \<le> uint p \<and> uint p \<le> 20 \<longrightarrow>
      uint (fst (encode_volume p)) = spec_linear 0x3A 0x00 1 19 (uint p) \<and>
      snd (encode_volume p) = 0xA0) \<and>
   (21 \<le> uint p \<and> uint p \<le> 60 \<longrightarrow>
      uint (fst (encode_volume p)) = spec_linear 0x00 0x14 21 39 (uint p) \<and>
      snd (encode_volume p) = 0x00) \<and>
   (61 \<le> uint p \<and> uint p \<le> 100 \<longrightarrow>
      uint (fst (encode_volume p)) = spec_linear 0x14 0x1D 61 39 (uint p)) \<and>
   (61 \<le> uint p \<and> uint p \<le> 90 \<longrightarrow> snd (encode_volume p) = 0x00) \<and>
   (91 \<le> uint p \<and> uint p \<le> 100 \<longrightarrow>
      uint (snd (encode_volume p)) = spec_linear 0x04 0x10 91 9 (uint p))"
proof (intro conjI impI)
  assume a: "1 \<le> uint p \<and> uint p \<le> 20"
  then have p: "1 \<le> uint p" "uint p \<le> 20" by simp_all
  from encode_volume_low_tier [OF p]
  show "uint (fst (encode_volume p)) = spec_linear 0x3A 0x00 1 19 (uint p)"
    and "snd (encode_volume p) = 0xA0"
    by (simp_all add: uint_to_u8)
next
  assume a: "21 \<le> uint p \<and> uint p \<le> 60"
  then have p: "21 \<le> uint p" "uint p \<le> 60" by simp_all
  from encode_volume_medium_tier [OF p]
  show "uint (fst (encode_volume p)) = spec_linear 0x00 0x14 21 39 (uint p)"
    and "snd (encode_volume p) = 0x00"
    by (simp_all add: uint_to_u8)
next
  assume a: "61 \<le> uint p \<and> uint p \<le> 100"
  then have p: "61 \<le> uint p" "uint p \<le> 100" by simp_all
  from encode_volume_high_hp [OF p]
  show "uint (fst (encode_volume p)) = spec_linear 0x14 0x1D 61 39 (uint p)"
    by (simp add: uint_to_u8)
next
  assume a: "61 \<le> uint p \<and> uint p \<le> 90"
  then show "snd (encode_volume p) = 0x00"
    by (intro encode_volume_high_dac) simp_all
next
  assume a: "91 \<le> uint p \<and> uint p \<le> 100"
  then have p: "91 \<le> uint p" "uint p \<le> 100" by simp_all
  from encode_volume_boost_dac [OF p]
  show "uint (snd (encode_volume p)) = spec_linear 0x04 0x10 91 9 (uint p)"
    by (simp add: uint_to_u8)
qed

theorem encode_volume_tiers_witness:
  "uint (fst (encode_volume 1)) = 0x3A \<and> snd (encode_volume 1) = 0xA0 \<and>
   uint (fst (encode_volume 2)) = 0x37 \<and>
   uint (fst (encode_volume 20)) = 0x00 \<and> snd (encode_volume 20) = 0xA0 \<and>
   uint (fst (encode_volume 21)) = 0x00 \<and> snd (encode_volume 21) = 0x00 \<and>
   uint (fst (encode_volume 60)) = 0x14 \<and> snd (encode_volume 60) = 0x00 \<and>
   uint (fst (encode_volume 61)) = 0x14 \<and> snd (encode_volume 61) = 0x00 \<and>
   uint (fst (encode_volume 90)) = 0x1A \<and> snd (encode_volume 90) = 0x00 \<and>
   uint (fst (encode_volume 91)) = 0x1A \<and> uint (snd (encode_volume 91)) = 0x04 \<and>
   uint (fst (encode_volume 100)) = 0x1D \<and> uint (snd (encode_volume 100)) = 0x10"
  using encode_volume_tiers [of 1] encode_volume_tiers [of 2] encode_volume_tiers [of 20]
    encode_volume_tiers [of 21] encode_volume_tiers [of 60] encode_volume_tiers [of 61]
    encode_volume_tiers [of 90] encode_volume_tiers [of 91] encode_volume_tiers [of 100]
  by (simp add: spec_linear_def c_div_def)

text \<open>
  C2 as stated does not hold: the headphone byte is not fixed at \<open>0x1D\<close> on 91..100.
  At 91 it is \<open>0x1A\<close>, the value it has at 90, and it is still \<open>0x1C\<close> at 99.
\<close>

theorem encode_volume_91_below_max:
  "fst (encode_volume 91) = 0x1A \<and> fst (encode_volume 91) \<noteq> 0x1D \<and>
   fst (encode_volume 99) = 0x1C \<and> fst (encode_volume 90) = 0x1A"
  by (simp add: encode_volume_def or_assign_def to_u8_def c_div_def)

section \<open>The inverse volume curve\<close>

lemma gain_bits_of_7bit:
  assumes "hp AND 0x40 = 0" "uint hp < 0x80"
  shows "hp AND 0x3F = (hp :: u8)"
proof (rule bit_word_eqI)
  fix n assume n: "n < LENGTH(8)"
  have b6: "\<not> bit hp 6"
  proof
    assume "bit hp 6"
    then have "bit (hp AND 0x40) 6" by (simp add: bit_and_iff)
    with assms(1) show False by simp
  qed
  have b7: "\<not> bit hp 7"
  proof
    assume "bit hp 7"
    then have "bit (uint hp) 7" by (simp add: bit_uint_iff)
    moreover from assms(2) have "uint hp div 2 ^ 7 = 0" by simp
    ultimately show False by (simp add: bit_iff_odd)
  qed
  from n have "n \<in> {0, 1, 2, 3, 4, 5, 6, 7}" by auto
  with b6 b7 show "bit (hp AND 0x3F) n = bit hp n"
    by (auto simp add: bit_and_iff bit_numeral_simps)
qed

lemma decode_volume_muted: "hp AND 0x40 \<noteq> 0 \<Longrightarrow> decode_volume hp dac = 0"
  by (simp add: decode_volume_def)

lemma decode_volume_boost:
  assumes "hp AND 0x40 = 0" "4 \<le> uint dac" "uint dac \<le> 0x10"
  shows "uint (decode_volume hp dac) = 91 + ((uint dac - 4) * 9) div 12"
    and "91 \<le> uint (decode_volume hp dac) \<and> uint (decode_volume hp dac) \<le> 100"
proof -
  have b: "0 \<le> ((uint dac - 4) * 9) div 12 \<and> ((uint dac - 4) * 9) div 12 \<le> 9"
    using assms by (intro div_bounds) simp_all
  with assms show v: "uint (decode_volume hp dac) = 91 + ((uint dac - 4) * 9) div 12"
    by (simp add: decode_volume_def Let_def c_div_nonneg uint_to_u8)
  from b show "91 \<le> uint (decode_volume hp dac) \<and> uint (decode_volume hp dac) \<le> 100"
    by (simp add: v)
qed

lemma decode_volume_high:
  assumes "hp AND 0x40 = 0" "\<not> (4 \<le> uint dac \<and> uint dac \<le> 0x10)"
          "0x14 \<le> uint (hp AND 0x3F)" "uint (hp AND 0x3F) \<le> 0x1D"
  shows "uint (decode_volume hp dac) = min 90 (61 + ((uint (hp AND 0x3F) - 0x14) * 39) div 9)"
    and "61 \<le> uint (decode_volume hp dac) \<and> uint (decode_volume hp dac) \<le> 90"
proof -
  have n1: "(hp AND 0x40 \<noteq> 0) = False" using assms(1) by simp
  have n2: "(4 \<le> uint dac \<and> uint dac \<le> 16) = False" using assms(2) by simp
  have n3: "(20 \<le> uint (hp AND 0x3F) \<and> uint (hp AND 0x3F) \<le> 29) = True" using assms(3,4) by simp
  have b: "0 \<le> ((uint (hp AND 0x3F) - 20) * 39) div 9 \<and> ((uint (hp AND 0x3F) - 20) * 39) div 9 \<le> 39"
    using assms by (intro div_bounds) simp_all
  then have u: "uint (to_u8 (61 + ((uint (hp AND 0x3F) - 20) * 39) div 9)) =
      61 + ((uint (hp AND 0x3F) - 20) * 39) div 9"
    by (intro uint_to_u8) simp_all
  have c: "c_div ((uint (hp AND 0x3F) - 20) * 39) (29 - 20) = ((uint (hp AND 0x3F) - 20) * 39) div 9"
    using assms by (simp add: c_div_nonneg)
  show v: "uint (decode_volume hp dac) = min 90 (61 + ((uint (hp AND 0x3F) - 0x14) * 39) div 9)"
    unfolding decode_volume_def Let_def n1 n2 n3 c
    using b u by (simp add: min_def uint_to_u8)
  from b show "61 \<le> uint (decode_volume hp dac) \<and> uint (decode_volume hp dac) \<le> 90"
    by (simp add: v)
qed

lemma decode_volume_medium:
  assumes "hp AND 0x40 = 0" "uint (hp AND 0x3F) < 0x14" "uint dac = 0"
  shows "uint (decode_volume hp dac) = 21 + (uint (hp AND 0x3F) * 39) div 20"
    and "21 \<le> uint (decode_volume hp dac) \<and> uint (decode_volume hp dac) \<le> 60"
proof -
  have b: "0 \<le> (uint (hp AND 0x3F) * 39) div 20 \<and> (uint (hp AND 0x3F) * 39) div 20 \<le> 39"
    using assms by (intro div_bounds) simp_all
  with assms show v: "uint (decode_volume hp dac) = 21 + (uint (hp AND 0x3F) * 39) div 20"
    by (simp add: decode_volume_def Let_def c_div_nonneg uint_to_u8)
  from b show "21 \<le> uint (decode_volume hp dac) \<and> uint (decode_volume hp dac) \<le> 60"
    by (simp add: v)
qed

lemma decode_volume_low:
  assumes "hp AND 0x40 = 0" "\<not> (0x14 \<le> uint (hp AND 0x3F) \<and> uint (hp AND 0x3F) \<le> 0x1D)"
     "uint (hp AND 0x3F) \<le> 0x3A" "uint dac = 0xA0"
  shows "uint (decode_volume hp dac) = 1 + ((0x3A - uint (hp AND 0x3F)) * 19) div 0x3A"
    and "1 \<le> uint (decode_volume hp dac) \<and> uint (decode_volume hp dac) \<le> 20"
proof -
  have n1: "(hp AND 0x40 \<noteq> 0) = False" using assms(1) by simp
  have n3: "(20 \<le> uint (hp AND 0x3F) \<and> uint (hp AND 0x3F) \<le> 29) = False" using assms(2) by simp
  have b: "0 \<le> ((58 - uint (hp AND 0x3F)) * 19) div 58 \<and> ((58 - uint (hp AND 0x3F)) * 19) div 58 \<le> 19"
    using assms by (intro div_bounds) simp_all
  then have u: "uint (to_u8 (1 + ((58 - uint (hp AND 0x3F)) * 19) div 58)) =
      1 + ((58 - uint (hp AND 0x3F)) * 19) div 58"
    by (intro uint_to_u8) simp_all
  have c: "c_div ((58 - uint (hp AND 0x3F)) * 19) (58 - 0) = ((58 - uint (hp AND 0x3F)) * 19) div 58"
    using assms by (simp add: c_div_nonneg)
  show v: "uint (decode_volume hp dac) = 1 + ((0x3A - uint (hp AND 0x3F)) * 19) div 0x3A"
    unfolding decode_volume_def Let_def n1 n3 c assms(4)
    using b u assms(3) by simp
  from b show "1 \<le> uint (decode_volume hp dac) \<and> uint (decode_volume hp dac) \<le> 20"
    by (simp add: v)
qed

lemma decode_volume_fallback:
  assumes "hp AND 0x40 = 0" "\<not> (4 \<le> uint dac \<and> uint dac \<le> 0x10)"
     "\<not> (0x14 \<le> uint (hp AND 0x3F) \<and> uint (hp AND 0x3F) \<le> 0x1D)"
     "\<not> (uint (hp AND 0x3F) \<le> 0x14 \<and> uint dac = 0)" 
     "\<not> (uint (hp AND 0x3F) \<le> 0x3A \<and> uint dac = 0xA0)" 
  shows "uint (decode_volume hp dac) =
           (if uint (hp AND 0x3F) = 0 then 21
            else if uint (hp AND 0x3F) < 0x14 then 21 + (uint (hp AND 0x3F) * 39) div 20
            else 20)"
proof -
  have n1: "(hp AND 0x40 \<noteq> 0) = False" using assms(1) by simp
  have n2: "(4 \<le> uint dac \<and> uint dac \<le> 16) = False" using assms(2) by simp
  have n3: "(20 \<le> uint (hp AND 0x3F) \<and> uint (hp AND 0x3F) \<le> 29) = False" using assms(3) by simp
  have n4: "(uint (hp AND 0x3F) \<le> 20 \<and> uint dac = 0) = False" using assms(4) by simp
  have n5: "(0 \<le> uint (hp AND 0x3F) \<and> uint (hp AND 0x3F) \<le> 58 \<and> uint dac = 160) = False"
    using assms(5) by simp
  have z: "(uint (hp AND 0x3F) \<le> 0) = (uint (hp AND 0x3F) = 0)"
    using uint_ge_0 [of "hp AND 0x3F"] by linarith
  show ?thesis
  proof (cases "uint (hp AND 0x3F) < 0x14")
    case True
    then have b: "0 \<le> (uint (hp AND 0x3F) * 39) div 20 \<and> (uint (hp AND 0x3F) * 39) div 20 \<le> 39"
      by (intro div_bounds) simp_all
    from True have le: "(uint (hp AND 0x3F) \<le> 20) = True" by simp
    from b True show ?thesis
      unfolding decode_volume_def Let_def n1 n2 n3 n4 n5 z le
      by (simp add: c_div_nonneg uint_to_u8)
  next
    case False
    with assms(3) have "(uint (hp AND 0x3F) \<le> 20) = False" "(uint (hp AND 0x3F) \<le> 29) = False"
      "(uint (hp AND 0x3F) = 0) = False"
      by simp_all
    with False show ?thesis
      unfolding decode_volume_def Let_def n1 n2 n3 n4 n5 z
      by simp
  qed
qed

text \<open>
  C3. Writing \<open>g\<close> for the gain bits \<open>hp AND 0x3F\<close> of the headphone byte (the byte
  itself when it is a 7-bit value with the mute bit clear), the inverse curve decides in
  this order. A set mute bit \<open>0x40\<close> gives 0 whatever the other bits and the DAC byte
  are. Otherwise a DAC byte in \<open>0x04..0x10\<close> gives a value in 91..100, whatever \<open>g\<close> is;
  else \<open>g\<close> in \<open>0x14..0x1D\<close> gives a value in 61..90, capped at 90; else \<open>g \<le> 0x14\<close>
  with a DAC byte \<open>0x00\<close> gives a value in 21..60; else \<open>g \<le> 0x3A\<close> with a DAC byte
  \<open>0xA0\<close> gives a value in 1..20; else the result is a guess from \<open>g\<close> alone: 21 for
  \<open>g = 0\<close>, the 21..60 formula below \<open>0x14\<close>, and 20 for everything else.
\<close>

theorem decode_volume_priority:
  "(hp AND 0x40 \<noteq> 0 \<longrightarrow> decode_volume hp dac = 0) \<and>
   (hp AND 0x40 = 0 \<and> 0x04 \<le> uint dac \<and> uint dac \<le> 0x10 \<longrightarrow>
      uint (decode_volume hp dac) = 91 + ((uint dac - 0x04) * 9) div 12 \<and>
      91 \<le> uint (decode_volume hp dac) \<and> uint (decode_volume hp dac) \<le> 100) \<and>
   (hp AND 0x40 = 0 \<and> \<not> (0x04 \<le> uint dac \<and> uint dac \<le> 0x10) \<and>
    0x14 \<le> uint (hp AND 0x3F) \<and> uint (hp AND 0x3F) \<le> 0x1D \<longrightarrow>
      uint (decode_volume hp dac) = min 90 (61 + ((uint (hp AND 0x3F) - 0x14) * 39) div 9) \<and>
      61 \<le> uint (decode_volume hp dac) \<and> uint (decode_volume hp dac) \<le> 90) \<and>
   (hp AND 0x40 = 0 \<and> \<not> (0x14 \<le> uint (hp AND 0x3F) \<and> uint (hp AND 0x3F) \<le> 0x1D) \<and>
    uint (hp AND 0x3F) \<le> 0x14 \<and> uint dac = 0x00 \<longrightarrow>
      uint (decode_volume hp dac) = 21 + (uint (hp AND 0x3F) * 39) div 0x14 \<and>
      21 \<le> uint (decode_volume hp dac) \<and> uint (decode_volume hp dac) \<le> 60) \<and>
   (hp AND 0x40 = 0 \<and> \<not> (0x14 \<le> uint (hp AND 0x3F) \<and> uint (hp AND 0x3F) \<le> 0x1D) \<and>
    uint (hp AND 0x3F) \<le> 0x3A \<and> uint dac = 0xA0 \<longrightarrow>
      uint (decode_volume hp dac) = 1 + ((0x3A - uint (hp AND 0x3F)) * 19) div 0x3A \<and>
      1 \<le> uint (decode_volume hp dac) \<and> uint (decode_volume hp dac) \<le> 20) \<and>
   (hp AND 0x40 = 0 \<and> \<not> (0x04 \<le> uint dac \<and> uint dac \<le> 0x10) \<and>
    \<not> (0x14 \<le> uint (hp AND 0x3F) \<and> uint (hp AND 0x3F) \<le> 0x1D) \<and>
    \<not> (uint (hp AND 0x3F) \<le> 0x14 \<and> uint dac = 0x00) \<and>
    \<not> (uint (hp AND 0x3F) \<le> 0x3A \<and> uint dac = 0xA0) \<longrightarrow>
      uint (decode_volume hp dac) =
        (if uint (hp AND 0x3F) = 0 then 21
         else if uint (hp AND 0x3F) < 0x14 then 21 + (uint (hp AND 0x3F) * 39) div 0x14
         else 20)) \<and>
   (hp AND 0x40 = 0 \<and> uint hp < 0x80 \<longrightarrow> hp AND 0x3F = hp)"
proof (intro conjI impI)
  assume "hp AND 0x40 \<noteq> 0"
  then show "decode_volume hp dac = 0" by (rule decode_volume_muted)
next
  assume a: "hp AND 0x40 = 0 \<and> 0x04 \<le> uint dac \<and> uint dac \<le> 0x10"
  then have h: "hp AND 0x40 = 0" "4 \<le> uint dac" "uint dac \<le> 0x10" by simp_all
  from decode_volume_boost [OF h]
  show "uint (decode_volume hp dac) = 91 + ((uint dac - 0x04) * 9) div 12"
    and "91 \<le> uint (decode_volume hp dac)" and "uint (decode_volume hp dac) \<le> 100"
    by simp_all
next
  assume a: "hp AND 0x40 = 0 \<and> \<not> (0x04 \<le> uint dac \<and> uint dac \<le> 0x10) \<and>
    0x14 \<le> uint (hp AND 0x3F) \<and> uint (hp AND 0x3F) \<le> 0x1D"
  then have h: "hp AND 0x40 = 0" "\<not> (4 \<le> uint dac \<and> uint dac \<le> 0x10)"
    "0x14 \<le> uint (hp AND 0x3F)" "uint (hp AND 0x3F) \<le> 0x1D" by simp_all
  from decode_volume_high [OF h]
  show "uint (decode_volume hp dac) = min 90 (61 + ((uint (hp AND 0x3F) - 0x14) * 39) div 9)"
    and "61 \<le> uint (decode_volume hp dac)" and "uint (decode_volume hp dac) \<le> 90"
    by simp_all
next
  assume a: "hp AND 0x40 = 0 \<and> \<not> (0x14 \<le> uint (hp AND 0x3F) \<and> uint (hp AND 0x3F) \<le> 0x1D) \<and>
    uint (hp AND 0x3F) \<le> 0x14 \<and> uint dac = 0x00"
  then have h: "hp AND 0x40 = 0" "uint (hp AND 0x3F) < 0x14" "uint dac = 0" by auto
  from decode_volume_medium [OF h]
  show "uint (decode_volume hp dac) = 21 + (uint (hp AND 0x3F) * 39) div 0x14"
    and "21 \<le> uint (decode_volume hp dac)" and "uint (decode_volume hp dac) \<le> 60"
    by simp_all
next
  assume a: "hp AND 0x40 = 0 \<and> \<not> (0x14 \<le> uint (hp AND 0x3F) \<and> uint (hp AND 0x3F) \<le> 0x1D) \<and>
    uint (hp AND 0x3F) \<le> 0x3A \<and> uint dac = 0xA0"
  then have h: "hp AND 0x40 = 0" "\<not> (0x14 \<le> uint (hp AND 0x3F) \<and> uint (hp AND 0x3F) \<le> 0x1D)"
    "uint (hp AND 0x3F) \<le> 0x3A" "uint dac = 0xA0" by simp_all
  from decode_volume_low [OF h]
  show "uint (decode_volume hp dac) = 1 + ((0x3A - uint (hp AND 0x3F)) * 19) div 0x3A"
    and "1 \<le> uint (decode_volume hp dac)" and "uint (decode_volume hp dac) \<le> 20"
    by simp_all
next
  assume a: "hp AND 0x40 = 0 \<and> \<not> (0x04 \<le> uint dac \<and> uint dac \<le> 0x10) \<and>
    \<not> (0x14 \<le> uint (hp AND 0x3F) \<and> uint (hp AND 0x3F) \<le> 0x1D) \<and>
    \<not> (uint (hp AND 0x3F) \<le> 0x14 \<and> uint dac = 0x00) \<and>
    \<not> (uint (hp AND 0x3F) \<le> 0x3A \<and> uint dac = 0xA0)"
  then have h: "hp AND 0x40 = 0" "\<not> (4 \<le> uint dac \<and> uint dac \<le> 0x10)"
     "\<not> (0x14 \<le> uint (hp AND 0x3F) \<and> uint (hp AND 0x3F) \<le> 0x1D)"
     "\<not> (uint (hp AND 0x3F) \<le> 0x14 \<and> uint dac = 0)"
     "\<not> (uint (hp AND 0x3F) \<le> 0x3A \<and> uint dac = 0xA0)" by simp_all
  from decode_volume_fallback [OF h]
  show "uint (decode_volume hp dac) =
        (if uint (hp AND 0x3F) = 0 then 21
         else if uint (hp AND 0x3F) < 0x14 then 21 + (uint (hp AND 0x3F) * 39) div 0x14
         else 20)"
    by simp
next
  assume a: "hp AND 0x40 = 0 \<and> uint hp < 0x80"
  then show "hp AND 0x3F = hp" by (intro gain_bits_of_7bit) simp_all
qed

theorem decode_volume_priority_witness:
  "decode_volume 0x40 0x10 = 0 \<and>
   uint (decode_volume 0x1D 0x10) = 100 \<and>
   uint (decode_volume 0x14 0x04) = 91 \<and>
   uint (decode_volume 0x14 0x00) = 61 \<and>
   uint (decode_volume 0x1D 0x00) = 90 \<and>
   uint (decode_volume 0x09 0x00) = 38 \<and>
   uint (decode_volume 0x3A 0xA0) = 1 \<and>
   uint (decode_volume 0x00 0xA0) = 20 \<and>
   uint (decode_volume 0x3F 0x50) = 20 \<and>
   uint (decode_volume 0x00 0x50) = 21"
  using decode_volume_priority [of "0x40" "0x10"] decode_volume_priority [of "0x1D" "0x10"]
    decode_volume_priority [of "0x14" "0x04"] decode_volume_priority [of "0x14" "0x00"]
    decode_volume_priority [of "0x1D" "0x00"] decode_volume_priority [of "0x09" "0x00"]
    decode_volume_priority [of "0x3A" "0xA0"] decode_volume_priority [of "0x00" "0xA0"]
    decode_volume_priority [of "0x3F" "0x50"] decode_volume_priority [of "0x00" "0x50"]
  by simp

text \<open>
  C9. \<open>encode_volume 0\<close> is the pair of a headphone byte with the mute bit \<open>0x40\<close> set
  and the gain bits zero and a DAC byte \<open>0x00\<close>; \<open>decode_volume\<close> gives 0 on that pair
  and on every pair whose headphone byte has the mute bit set.
\<close>

theorem mute_round_trip:
  "encode_volume 0 = (0x40, 0x00) \<and>
   fst (encode_volume 0) AND 0x40 = 0x40 \<and>
   fst (encode_volume 0) AND 0x3F = 0x00 \<and>
   decode_volume (fst (encode_volume 0)) (snd (encode_volume 0)) = 0 \<and>
   (hp AND 0x40 \<noteq> 0 \<longrightarrow> decode_volume hp dac = 0)"
  by (simp add: encode_volume_def decode_volume_muted)

theorem mute_round_trip_witness:
  "0x7F AND 0x40 \<noteq> (0 :: u8) \<and> decode_volume 0x7F 0x10 = 0 \<and>
   0xC0 AND 0x40 \<noteq> (0 :: u8) \<and> decode_volume 0xC0 0xA0 = 0"
  using mute_round_trip [of "0x7F" "0x10"] mute_round_trip [of "0xC0" "0xA0"]
  by simp

section \<open>The gain curves\<close>

lemma encode_gain_low_val:
  assumes "uint p < 20"
  shows "uint (encode_gain p) = 0x68 - (uint p * 63) div 19"
    and "0x29 \<le> uint (encode_gain p) \<and> uint (encode_gain p) \<le> 0x68"
proof -
  have b: "0 \<le> (uint p * 63) div 19 \<and> (uint p * 63) div 19 \<le> 63"
    using assms by (intro div_bounds) simp_all
  with assms show v: "uint (encode_gain p) = 0x68 - (uint p * 63) div 19"
    by (simp add: encode_gain_def c_div_nonneg uint_to_u8)
  from b show "0x29 \<le> uint (encode_gain p) \<and> uint (encode_gain p) \<le> 0x68"
    by (simp add: v)
qed

lemma encode_gain_high_val:
  assumes "20 \<le> uint p" "uint p \<le> 100"
  shows "uint (encode_gain p) = ((uint p - 20) * 0x28) div 80"
    and "uint (encode_gain p) \<le> 0x28"
proof -
  have b: "0 \<le> ((uint p - 20) * 40) div 80 \<and> ((uint p - 20) * 40) div 80 \<le> 40"
    using assms by (intro div_bounds) simp_all
  with assms show v: "uint (encode_gain p) = ((uint p - 20) * 0x28) div 80"
    by (simp add: encode_gain_def c_div_nonneg uint_to_u8)
  from b show "uint (encode_gain p) \<le> 0x28"
    by (simp add: v)
qed

lemma decode_gain_legacy_val:
  assumes "1 \<le> uint a" "uint a \<le> 0x28"
  shows "uint (decode_gain_legacy a) = ((0x68 - uint a) * 20) div 0x68"
    and "uint (decode_gain_legacy a) \<le> 20"
proof -
  have m: "uint a AND 0x7F = uint a"
  proof -
    have "uint a AND mask 7 = uint a"
      using assms by (simp add: take_bit_eq_mask [symmetric] take_bit_int_eq_self)
    then show ?thesis by (simp add: mask_numeral)
  qed
  have u: "uint (to_u8 (uint a)) = uint a" by (simp add: to_u8_def)
  have b: "0 \<le> ((104 - uint a) * 20) div 104 \<and> ((104 - uint a) * 20) div 104 \<le> 20"
    using assms by (intro div_bounds) simp_all
  with assms show v: "uint (decode_gain_legacy a) = ((0x68 - uint a) * 20) div 0x68"
    by (simp add: decode_gain_legacy_def Let_def m u c_div_nonneg uint_to_u8)
  with b show "uint (decode_gain_legacy a) \<le> 20" by simp
qed

lemma encode_gain_legacy_high:
  assumes "21 \<le> uint p" "uint p \<le> 100"
  shows "uint (encode_gain_legacy p) = ((uint p - 20) * 0x28) div 80"
    and "uint (encode_gain_legacy p) \<le> 0x28"
proof -
  have b: "0 \<le> ((uint p - 20) * 40) div 80 \<and> ((uint p - 20) * 40) div 80 \<le> 40"
    using assms by (intro div_bounds) simp_all
  with assms show v: "uint (encode_gain_legacy p) = ((uint p - 20) * 0x28) div 80"
    by (simp add: encode_gain_legacy_def c_div_nonneg uint_to_u8)
  from b show "uint (encode_gain_legacy p) \<le> 0x28"
    by (simp add: v)
qed

text \<open>
  C5. In the later revision of the gain curve the round trip is exact at both ends,
  \<open>decode_gain (encode_gain 0) = 0\<close> and \<open>decode_gain (encode_gain 100) = 100\<close>; the
  registers of the percentages 0..19 lie in \<open>0x29..0x68\<close>, those of 20..100 in
  \<open>0x00..0x28\<close>, and so no register of the first range is one of the second.
\<close>

theorem gain_round_trip_disjoint:
  "decode_gain (encode_gain 0) = 0 \<and>
   decode_gain (encode_gain 100) = 100 \<and>
   encode_gain 0 = 0x68 \<and> encode_gain 19 = 0x29 \<and>
   encode_gain 20 = 0x00 \<and> encode_gain 100 = 0x28 \<and>
   (uint p < 20 \<longrightarrow> 0x29 \<le> uint (encode_gain p) \<and> uint (encode_gain p) \<le> 0x68) \<and>
   (20 \<le> uint q \<and> uint q \<le> 100 \<longrightarrow> uint (encode_gain q) \<le> 0x28) \<and>
   (uint p < 20 \<and> 20 \<le> uint q \<and> uint q \<le> 100 \<longrightarrow> encode_gain p \<noteq> encode_gain q)"
proof (intro conjI impI)
  show "decode_gain (encode_gain 0) = 0" "decode_gain (encode_gain 100) = 100"
    by (simp_all add: decode_gain_def encode_gain_def c_div_def to_u8_def)
  show "encode_gain 0 = 0x68" "encode_gain 19 = 0x29" "encode_gain 20 = 0x00"
    "encode_gain 100 = 0x28"
    by (simp_all add: encode_gain_def c_div_def to_u8_def)
next
  assume "uint p < 20"
  then show "0x29 \<le> uint (encode_gain p)" "uint (encode_gain p) \<le> 0x68"
    using encode_gain_low_val(2) [of p] by simp_all
next
  assume "20 \<le> uint q \<and> uint q \<le> 100"
  then show "uint (encode_gain q) \<le> 0x28"
    using encode_gain_high_val(2) [of q] by simp
next
  assume a: "uint p < 20 \<and> 20 \<le> uint q \<and> uint q \<le> 100"
  show "encode_gain p \<noteq> encode_gain q"
  proof
    assume "encode_gain p = encode_gain q"
    then have "uint (encode_gain p) = uint (encode_gain q)" by simp
    with a encode_gain_low_val(2) [of p] encode_gain_high_val(2) [of q]
    show False by simp
  qed
qed

theorem gain_round_trip_disjoint_witness:
  "uint (19 :: u8) < 20 \<and> 20 \<le> uint (20 :: u8) \<and> uint (20 :: u8) \<le> 100 \<and>
   encode_gain 19 \<noteq> encode_gain 20 \<and>
   0x29 \<le> uint (encode_gain 19) \<and> uint (encode_gain 20) \<le> 0x28 \<and>
   encode_gain 0 \<noteq> encode_gain 100"
  using gain_round_trip_disjoint [of 19 20] gain_round_trip_disjoint [of 0 100]
  by simp

text \<open>
  C6, as the code has it. In the earlier revision 20 and 21 both encode to register
  \<open>0x00\<close>, which decodes to 20: the round trip is exact at 20 and fails at 21, and it
  fails for every percentage in 21..100, which all come back as 20 or less (100 comes
  back as 12).
\<close>

theorem gain_legacy_round_trip:
  "encode_gain_legacy 20 = 0x00 \<and> encode_gain_legacy 21 = 0x00 \<and>
   decode_gain_legacy 0x00 = 20 \<and>
   decode_gain_legacy (encode_gain_legacy 20) = 20 \<and>
   decode_gain_legacy (encode_gain_legacy 21) = 20 \<and>
   decode_gain_legacy (encode_gain_legacy 100) = 12 \<and>
   (21 \<le> uint p \<and> uint p \<le> 100 \<longrightarrow>
      uint (decode_gain_legacy (encode_gain_legacy p)) \<le> 20 \<and>
      decode_gain_legacy (encode_gain_legacy p) \<noteq> p)"
proof (intro conjI impI)
  show "encode_gain_legacy 20 = 0x00" "encode_gain_legacy 21 = 0x00"
    "decode_gain_legacy 0x00 = 20"
    "decode_gain_legacy (encode_gain_legacy 20) = 20"
    "decode_gain_legacy (encode_gain_legacy 21) = 20"
    "decode_gain_legacy (encode_gain_legacy 100) = 12"
    by (simp_all add: decode_gain_legacy_def encode_gain_legacy_def c_div_def to_u8_def)
next
  assume a: "21 \<le> uint p \<and> uint p \<le> 100"
  then have p: "21 \<le> uint p" "uint p \<le> 100" by simp_all
  show le: "uint (decode_gain_legacy (encode_gain_legacy p)) \<le> 20"
  proof (cases "uint (encode_gain_legacy p) = 0")
    case True
    then have "encode_gain_legacy p = 0" by (simp add: uint_0_iff)
    then show ?thesis
      by (simp add: decode_gain_legacy_def c_div_def to_u8_def)
  next
    case False
    then have "1 \<le> uint (encode_gain_legacy p)"
      using uint_ge_0 [of "encode_gain_legacy p"] by linarith
    from decode_gain_legacy_val(2) [OF this encode_gain_legacy_high(2) [OF p]]
    show ?thesis by simp
  qed
  show "decode_gain_legacy (encode_gain_legacy p) \<noteq> p"
  proof
    assume "decode_gain_legacy (encode_gain_legacy p) = p"
    with le have "uint p \<le> 20" by simp
    with p show False by simp
  qed
qed

theorem gain_legacy_round_trip_witness:
  "(21 :: int) \<le> uint (50 :: u8) \<and> uint (50 :: u8) \<le> 100 \<and>
   uint (decode_gain_legacy (encode_gain_legacy 50)) \<le> 20 \<and>
   decode_gain_legacy (encode_gain_legacy 50) \<noteq> 50"
  using gain_legacy_round_trip [of 50] by simp

text \<open>
  C6 as stated does not hold: in the earlier revision the round trip at 20 gives 20.
\<close>

theorem gain_legacy_round_trip_at_20:
  "decode_gain_legacy (encode_gain_legacy 20) = 20"
  by (simp add: decode_gain_legacy_def encode_gain_legacy_def c_div_def to_u8_def)

section \<open>The cache\<close>

lemma decode_volume_le_100: "uint (decode_volume hp dac) \<le> 100"
  by (simp add: decode_volume_def Let_def)

lemma decode_gain_le_100: "uint (decode_gain raw) \<le> 100"
proof -
  let ?a = "uint (to_u8 (uint raw AND 0x7F))"
  have a0: "0 \<le> ?a" by simp
  show ?thesis
  proof (cases "?a \<le> 0x28")
    case True
    with a0 have b: "0 \<le> (?a * 80) div 40 \<and> (?a * 80) div 40 \<le> 80"
      by (intro div_bounds) simp_all
    with True a0 show ?thesis
      by (simp add: decode_gain_def Let_def c_div_nonneg uint_to_u8)
  next
    case False
    show ?thesis
    proof (cases "0x68 \<le> ?a")
      case True
      then show ?thesis by (simp add: decode_gain_def Let_def)
    next
      case ge: False
      with False have b: "0 \<le> ((104 - ?a) * 19) div 63 \<and> ((104 - ?a) * 19) div 63 \<le> 19"
        by (intro div_bounds) simp_all
      with False ge show ?thesis
        by (simp add: decode_gain_def Let_def c_div_nonneg uint_to_u8)
    qed
  qed
qed

lemma get_volume_data:
  "fst (snd (pamir_ai_i2c_sound_get_volume d e)) = d \<or>
   (\<exists>hp dac. fst (snd (pamir_ai_i2c_sound_get_volume d e)) = d\<lparr>volume := decode_volume hp dac\<rparr>)"
  by (auto simp add: pamir_ai_i2c_sound_get_volume_def split: prod.splits)

lemma get_input_gain_data:
  "fst (snd (pamir_ai_i2c_sound_get_input_gain d e)) = d \<or>
   (\<exists>raw. fst (snd (pamir_ai_i2c_sound_get_input_gain d e)) = d\<lparr>input_gain := decode_gain raw\<rparr>)"
  by (auto simp add: pamir_ai_i2c_sound_get_input_gain_def split: prod.splits)

lemma cache_ok_setters:
  assumes "cache_ok d"
  shows "cache_ok (fst (snd (pamir_ai_i2c_sound_set_volume d e p)))"
    and "cache_ok (fst (snd (pamir_ai_i2c_sound_set_input_gain d e p)))"
  using assms
  by (simp_all add: cache_ok_def set_volume_unfold set_input_gain_unfold uint_clamp_percent)

lemma cache_ok_getters:
  assumes "cache_ok d"
  shows "cache_ok (fst (snd (pamir_ai_i2c_sound_get_volume d e)))"
    and "cache_ok (fst (snd (pamir_ai_i2c_sound_get_input_gain d e)))"
  using assms get_volume_data [of d e] get_input_gain_data [of d e]
    decode_volume_le_100 decode_gain_le_100
  by (auto simp add: cache_ok_def)

lemma cache_ok_probe:
  assumes "fst (snd (pamir_ai_i2c_sound_probe alloc_ok sysfs_ret e)) = Some d"
  shows "cache_ok d"
proof -
  have i: "cache_ok \<lparr>volume = 50, input_gain = 50\<rparr>" by (simp add: cache_ok_def)
  note s1 = cache_ok_setters(1) [OF i]
  note s2 = cache_ok_setters(2) [OF s1]
  from assms i show ?thesis
    unfolding pamir_ai_i2c_sound_probe_def Let_def
    by (auto split: if_splits prod.splits
        dest: arg_cong [where f = "\<lambda>r. fst (snd r)"]
        simp add: cache_ok_def set_volume_unfold set_input_gain_unfold uint_clamp_percent)
qed

text \<open>
  C10. The cached percentages are at most 100 (and, being unsigned bytes, at least 0)
  after every operation. The setters cache the clamped input, which is at most 100 for
  every input byte; the inverse curves give at most 100 on every register byte, produced
  by the encoders or not; so each of the four operations keeps a cache of percentages a
  cache of percentages, on every bus and whether it fails or not, and the probe leaves
  one.
\<close>

theorem cached_percent_in_range:
  "uint (clamp_percent p) \<le> 100 \<and>
   uint (decode_volume hp dac) \<le> 100 \<and>
   uint (decode_gain raw) \<le> 100 \<and>
   uint (clamp_percent p) = min (uint p) 100 \<and>
   volume (fst (snd (pamir_ai_i2c_sound_set_volume d e p))) = clamp_percent p \<and>
   input_gain (fst (snd (pamir_ai_i2c_sound_set_input_gain d e p))) = clamp_percent p \<and>
   uint (volume (fst (snd (pamir_ai_i2c_sound_set_volume d e p)))) \<le> 100 \<and>
   uint (input_gain (fst (snd (pamir_ai_i2c_sound_set_input_gain d e p)))) \<le> 100 \<and>
   (cache_ok d \<longrightarrow>
      cache_ok (fst (snd (pamir_ai_i2c_sound_set_volume d e p))) \<and>
      cache_ok (fst (snd (pamir_ai_i2c_sound_set_input_gain d e p))) \<and>
      cache_ok (fst (snd (pamir_ai_i2c_sound_get_volume d e))) \<and>
      cache_ok (fst (snd (pamir_ai_i2c_sound_get_input_gain d e)))) \<and>
   (fst (snd (pamir_ai_i2c_sound_probe alloc_ok sysfs_ret e)) = Some d \<longrightarrow> cache_ok d)"
proof (intro conjI impI)
  show "uint (clamp_percent p) \<le> 100" by (simp add: uint_clamp_percent)
  show "uint (decode_volume hp dac) \<le> 100" by (rule decode_volume_le_100)
  show "uint (decode_gain raw) \<le> 100" by (rule decode_gain_le_100)
  show "uint (clamp_percent p) = min (uint p) 100" by (rule uint_clamp_percent)
  show "volume (fst (snd (pamir_ai_i2c_sound_set_volume d e p))) = clamp_percent p"
    by (simp add: set_volume_unfold)
  show "input_gain (fst (snd (pamir_ai_i2c_sound_set_input_gain d e p))) = clamp_percent p"
    by (simp add: set_input_gain_unfold)
  show "uint (volume (fst (snd (pamir_ai_i2c_sound_set_volume d e p)))) \<le> 100"
    by (simp add: set_volume_unfold uint_clamp_percent)
  show "uint (input_gain (fst (snd (pamir_ai_i2c_sound_set_input_gain d e p)))) \<le> 100"
    by (simp add: set_input_gain_unfold uint_clamp_percent)
next
  assume c: "cache_ok d"
  from cache_ok_setters [OF c] cache_ok_getters [OF c]
  show "cache_ok (fst (snd (pamir_ai_i2c_sound_set_volume d e p)))"
    and "cache_ok (fst (snd (pamir_ai_i2c_sound_set_input_gain d e p)))"
    and "cache_ok (fst (snd (pamir_ai_i2c_sound_get_volume d e)))"
    and "cache_ok (fst (snd (pamir_ai_i2c_sound_get_input_gain d e)))"
    by simp_all
next
  assume "fst (snd (pamir_ai_i2c_sound_probe alloc_ok sysfs_ret e)) = Some d"
  then show "cache_ok d" by (rule cache_ok_probe)
qed

theorem cached_percent_witness:
  "cache_ok \<lparr>volume = 50, input_gain = 50\<rparr> \<and>
   cache_ok (fst (snd (pamir_ai_i2c_sound_set_volume \<lparr>volume = 50, input_gain = 50\<rparr>
     (fresh_codec [- 5]) 255))) \<and>
   cache_ok (fst (snd (pamir_ai_i2c_sound_set_input_gain \<lparr>volume = 50, input_gain = 50\<rparr>
     (fresh_codec []) 255))) \<and>
   cache_ok (fst (snd (pamir_ai_i2c_sound_get_volume \<lparr>volume = 50, input_gain = 50\<rparr>
     (fresh_codec [])))) \<and>
   cache_ok (fst (snd (pamir_ai_i2c_sound_get_input_gain \<lparr>volume = 50, input_gain = 50\<rparr>
     (fresh_codec [0, - 5])))) \<and>
   uint (decode_volume 0xBF 0xFF) \<le> 100 \<and>
   uint (decode_gain 0xFF) \<le> 100 \<and>
   fst (snd (pamir_ai_i2c_sound_probe True 0 (fresh_codec [- 5]))) =
     Some \<lparr>volume = 50, input_gain = 50\<rparr>"
proof -
  have c: "cache_ok \<lparr>volume = 50, input_gain = 50\<rparr>"
    by (simp add: cache_ok_def)
  have p: "fst (snd (pamir_ai_i2c_sound_probe True 0 (fresh_codec [- 5]))) =
     Some \<lparr>volume = 50, input_gain = 50\<rparr>"
    by (simp add: pamir_ai_i2c_sound_probe_def init_sequence_def i2c_smbus_write_byte_data_def
        next_outcome_def dev_info_def fresh_codec_def)
  from c p
    cached_percent_in_range [of 255 "0xBF" "0xFF" "0xFF" "\<lparr>volume = 50, input_gain = 50\<rparr>"
      "fresh_codec [- 5]" True 0]
    cached_percent_in_range [of 255 "0xBF" "0xFF" "0xFF" "\<lparr>volume = 50, input_gain = 50\<rparr>"
      "fresh_codec []" True 0]
    cached_percent_in_range [of 255 "0xBF" "0xFF" "0xFF" "\<lparr>volume = 50, input_gain = 50\<rparr>"
      "fresh_codec [0, - 5]" True 0]
  show ?thesis by simp
qed

section \<open>Setting and reading back the volume\<close>

lemma never_fails_next: "never_fails e \<Longrightarrow> \<not> next_outcome e < 0"
  by (cases "outcomes e") (simp_all add: never_fails_def next_outcome_def)

lemma never_fails_issue: "never_fails e \<Longrightarrow> never_fails (issue e t)"
  by (cases "outcomes e") (simp_all add: never_fails_def issue_def)

lemma never_fails_store_reg: "never_fails (store_reg e reg val) = never_fails e"
  by (simp add: never_fails_def store_reg_def)

lemma never_fails_dev_info: "never_fails (dev_info e m) = never_fails e"
  by (simp add: never_fails_def dev_info_def)

lemma write_byte_ok:
  "never_fails e \<Longrightarrow>
     i2c_smbus_write_byte_data e reg val = (0, store_reg (issue e (Write_byte reg val)) reg val)"
  by (simp add: i2c_smbus_write_byte_data_def never_fails_next)

lemma read_byte_ok:
  "never_fails e \<Longrightarrow>
     i2c_smbus_read_byte_data e reg = (uint (load_reg e reg), issue e (Read_byte reg))"
  by (simp add: i2c_smbus_read_byte_data_def never_fails_next)

lemma page_issue: "page (issue e t) = page e" and regs_issue: "regs (issue e t) = regs e"
  by (simp_all add: issue_def)

lemma page_dev_info: "page (dev_info e m) = page e" and regs_dev_info: "regs (dev_info e m) = regs e"
  by (simp_all add: dev_info_def)

lemma page_store_reg: "page (store_reg e reg val) = (if reg = 0 then val else page e)"
  by (simp add: store_reg_def)

lemma regs_store_reg:
  "regs (store_reg e reg val) =
     (if reg = 0 then regs e else (regs e)(page e := (regs e (page e))(reg := val)))"
  by (simp add: store_reg_def)

lemma to_u8_uint: "to_u8 (uint w) = w"
  by (simp add: to_u8_def)

lemma get_volume_ok:
  assumes "never_fails e"
  shows "fst (pamir_ai_i2c_sound_get_volume d e) = 0"
    and "fst (snd (pamir_ai_i2c_sound_get_volume d e)) =
           d\<lparr>volume := decode_volume (regs e 1 0x10) (regs e 0 0x41)\<rparr>"
  using assms
  by (simp_all add: pamir_ai_i2c_sound_get_volume_def write_byte_ok read_byte_ok
      never_fails_issue never_fails_store_reg page_store_reg regs_store_reg load_reg_def
      page_issue regs_issue to_u8_uint)

lemma set_volume_ok:
  assumes "never_fails e"
  shows "fst (pamir_ai_i2c_sound_set_volume d e p) = 0"
    and "fst (snd (pamir_ai_i2c_sound_set_volume d e p)) = d\<lparr>volume := clamp_percent p\<rparr>"
    and "never_fails (snd (snd (pamir_ai_i2c_sound_set_volume d e p)))"
    and "regs (snd (snd (pamir_ai_i2c_sound_set_volume d e p))) 1 0x10 =
           fst (encode_volume (clamp_percent p))"
    and "regs (snd (snd (pamir_ai_i2c_sound_set_volume d e p))) 0 0x41 =
           snd (encode_volume (clamp_percent p))"
  using assms
  by (simp_all add: pamir_ai_i2c_sound_set_volume_def Let_def write_byte_ok
      never_fails_issue never_fails_store_reg never_fails_dev_info page_store_reg
      regs_store_reg page_issue regs_issue page_dev_info regs_dev_info)

lemma set_then_get_volume_ok:
  assumes "never_fails e"
  shows "fst (set_then_get_volume d e p) = 0"
    and "volume (fst (snd (set_then_get_volume d e p))) = round_trip_volume (clamp_percent p)"
proof -
  obtain ret d1 e1 where s: "pamir_ai_i2c_sound_set_volume d e p = (ret, d1, e1)"
    by (cases "pamir_ai_i2c_sound_set_volume d e p")
  with set_volume_ok [OF assms, of d p]
  have e1: "never_fails e1" "regs e1 1 0x10 = fst (encode_volume (clamp_percent p))"
    "regs e1 0 0x41 = snd (encode_volume (clamp_percent p))"
    by simp_all
  from get_volume_ok(1) [OF e1(1), of d1] s
  show "fst (set_then_get_volume d e p) = 0"
    by (simp add: set_then_get_volume_def)
  from get_volume_ok(2) [OF e1(1), of d1] s e1(2,3)
  show "volume (fst (snd (set_then_get_volume d e p))) = round_trip_volume (clamp_percent p)"
    by (simp add: set_then_get_volume_def round_trip_volume_def)
qed

lemma round_trip_values:
  "round_trip_volume 0 = 0" "round_trip_volume 1 = 1" "round_trip_volume 21 = 21"
  "round_trip_volume 40 = 38" "round_trip_volume 50 = 48" "round_trip_volume 61 = 61"
  "round_trip_volume 91 = 91" "round_trip_volume 100 = 100"
  by (simp_all add: round_trip_volume_def encode_volume_def decode_volume_def
      or_assign_def to_u8_def c_div_def)

lemma never_fails_none_fails: "never_fails e \<Longrightarrow> none_fails (outcomes e) n"
  by (simp add: never_fails_def none_fails_def list_all_iff) (meson in_set_takeD)

lemma xfers_issue: "xfers (issue e t) = xfers e @ [t]"
  by (simp add: issue_def)

lemma xfers_store_reg: "xfers (store_reg e reg val) = xfers e"
  by (simp add: store_reg_def)

lemma get_volume_xfers:
  assumes "never_fails e"
  shows "xfers (snd (snd (pamir_ai_i2c_sound_get_volume d e))) =
           xfers e @ [Write_byte 0x00 0x01, Read_byte 0x10, Write_byte 0x00 0x00, Read_byte 0x41]"
  using assms
  by (simp add: pamir_ai_i2c_sound_get_volume_def write_byte_ok read_byte_ok
      never_fails_issue never_fails_store_reg xfers_issue xfers_store_reg)

lemma set_volume_xfers:
  assumes "never_fails e"
  shows "xfers (snd (snd (pamir_ai_i2c_sound_set_volume d e p))) =
           xfers e @ write_ops (volume_writes (clamp_percent p))"
proof -
  from assms have "none_fails (outcomes e) (length (volume_writes (clamp_percent p)))"
    by (rule never_fails_none_fails)
  from write_regs_ok [OF this] show ?thesis
    by (simp add: set_volume_unfold xfers_dev_info)
qed

lemma set_then_get_volume_data:
  assumes "never_fails e"
  shows "fst (snd (set_then_get_volume d e p)) =
           d\<lparr>volume := round_trip_volume (clamp_percent p)\<rparr>"
    and "xfers (snd (snd (set_then_get_volume d e p))) =
           xfers e @ write_ops (volume_writes (clamp_percent p)) @
             [Write_byte 0x00 0x01, Read_byte 0x10, Write_byte 0x00 0x00, Read_byte 0x41]"
proof -
  obtain ret d1 e1 where s: "pamir_ai_i2c_sound_set_volume d e p = (ret, d1, e1)"
    by (cases "pamir_ai_i2c_sound_set_volume d e p")
  with set_volume_ok [OF assms, of d p] set_volume_xfers [OF assms, of d p]
  have e1: "never_fails e1" "regs e1 1 0x10 = fst (encode_volume (clamp_percent p))"
    "regs e1 0 0x41 = snd (encode_volume (clamp_percent p))"
    and d1: "d1 = d\<lparr>volume := clamp_percent p\<rparr>"
    and x1: "xfers e1 = xfers e @ write_ops (volume_writes (clamp_percent p))"
    by simp_all
  from get_volume_ok(2) [OF e1(1), of d1] s e1(2,3) d1
  show "fst (snd (set_then_get_volume d e p)) =
           d\<lparr>volume := round_trip_volume (clamp_percent p)\<rparr>"
    by (simp add: set_then_get_volume_def round_trip_volume_def)
  from get_volume_xfers [OF e1(1), of d1] s x1
  show "xfers (snd (snd (set_then_get_volume d e p))) =
           xfers e @ write_ops (volume_writes (clamp_percent p)) @
             [Write_byte 0x00 0x01, Read_byte 0x10, Write_byte 0x00 0x00, Read_byte 0x41]"
    by (simp add: set_then_get_volume_def)
qed

text \<open>
  C4. For each \<open>p\<close> of 1, 21, 40, 61, 91 and 100, decoding the bytes of
  \<open>encode_volume p\<close> gives a percentage in the row of the volume table that \<open>p\<close> is in
  (1, 21, 38, 61, 91 and 100). On a device whose transfers do not fail and whose reads
  return the bytes last written, \<^verbatim>\<open>get_volume\<close> selects page 1, reads register \<open>0x10\<close>,
  selects page 0, reads register \<open>0x41\<close>, and caches the decoding of the two bytes it
  read, whatever the cache held. So \<^verbatim>\<open>get_volume\<close> after \<^verbatim>\<open>set_volume(p)\<close> caches the
  decoding of the bytes that \<^verbatim>\<open>set_volume\<close> wrote for the clamped \<open>p\<close>: exactly 0 after
  \<^verbatim>\<open>set_volume(0)\<close>, 100, a value in 91..100, after \<^verbatim>\<open>set_volume(100)\<close>, and 48, a
  value in 21..60, after \<^verbatim>\<open>set_volume(50)\<close>, each time returning 0.
\<close>

theorem volume_round_trip_tiers:
  "volume_tier (round_trip_volume 1) = volume_tier 1 \<and>
   volume_tier (round_trip_volume 21) = volume_tier 21 \<and>
   volume_tier (round_trip_volume 40) = volume_tier 40 \<and>
   volume_tier (round_trip_volume 61) = volume_tier 61 \<and>
   volume_tier (round_trip_volume 91) = volume_tier 91 \<and>
   volume_tier (round_trip_volume 100) = volume_tier 100 \<and>
   volume_tier 1 = 1 \<and> volume_tier 21 = 2 \<and> volume_tier 40 = 2 \<and> volume_tier 61 = 3 \<and>
   volume_tier 91 = 4 \<and> volume_tier 100 = 4 \<and>
   round_trip_volume 1 = 1 \<and> round_trip_volume 21 = 21 \<and> round_trip_volume 40 = 38 \<and>
   round_trip_volume 61 = 61 \<and> round_trip_volume 91 = 91 \<and> round_trip_volume 100 = 100 \<and>
   (never_fails e \<longrightarrow>
      fst (pamir_ai_i2c_sound_get_volume d e) = 0 \<and>
      fst (snd (pamir_ai_i2c_sound_get_volume d e)) =
        d\<lparr>volume := decode_volume (regs e 1 0x10) (regs e 0 0x41)\<rparr> \<and>
      xfers (snd (snd (pamir_ai_i2c_sound_get_volume d e))) =
        xfers e @ [Write_byte 0x00 0x01, Read_byte 0x10, Write_byte 0x00 0x00, Read_byte 0x41] \<and>
      fst (set_then_get_volume d e p) = 0 \<and>
      fst (snd (set_then_get_volume d e p)) =
        d\<lparr>volume := decode_volume (fst (encode_volume (clamp_percent p)))
                                  (snd (encode_volume (clamp_percent p)))\<rparr> \<and>
      xfers (snd (snd (set_then_get_volume d e p))) =
        xfers e @ write_ops (volume_writes (clamp_percent p)) @
          [Write_byte 0x00 0x01, Read_byte 0x10, Write_byte 0x00 0x00, Read_byte 0x41] \<and>
      fst (set_then_get_volume d e 0) = 0 \<and>
      volume (fst (snd (set_then_get_volume d e 0))) = 0 \<and>
      fst (set_then_get_volume d e 100) = 0 \<and>
      volume (fst (snd (set_then_get_volume d e 100))) = 100 \<and>
      91 \<le> uint (volume (fst (snd (set_then_get_volume d e 100)))) \<and>
      uint (volume (fst (snd (set_then_get_volume d e 100)))) \<le> 100 \<and>
      fst (set_then_get_volume d e 50) = 0 \<and>
      volume (fst (snd (set_then_get_volume d e 50))) = 48 \<and>
      21 \<le> uint (volume (fst (snd (set_then_get_volume d e 50)))) \<and>
      uint (volume (fst (snd (set_then_get_volume d e 50)))) \<le> 60)"
proof (intro conjI impI)
  show "volume_tier (round_trip_volume 1) = volume_tier 1"
    "volume_tier (round_trip_volume 21) = volume_tier 21"
    "volume_tier (round_trip_volume 40) = volume_tier 40"
    "volume_tier (round_trip_volume 61) = volume_tier 61"
    "volume_tier (round_trip_volume 91) = volume_tier 91"
    "volume_tier (round_trip_volume 100) = volume_tier 100"
    "volume_tier 1 = 1" "volume_tier 21 = 2" "volume_tier 40 = 2" "volume_tier 61 = 3"
    "volume_tier 91 = 4" "volume_tier 100 = 4"
    by (simp_all add: round_trip_values volume_tier_def)
  show "round_trip_volume 1 = 1" "round_trip_volume 21 = 21" "round_trip_volume 40 = 38"
    "round_trip_volume 61 = 61" "round_trip_volume 91 = 91" "round_trip_volume 100 = 100"
    by (simp_all add: round_trip_values)
next
  assume n: "never_fails e"
  have c: "clamp_percent 0 = 0" "clamp_percent 100 = 100" "clamp_percent 50 = 50"
    by (simp_all add: clamp_percent_def)
  from get_volume_ok [OF n, of d] get_volume_xfers [OF n, of d]
  show "fst (pamir_ai_i2c_sound_get_volume d e) = 0"
    and "fst (snd (pamir_ai_i2c_sound_get_volume d e)) =
        d\<lparr>volume := decode_volume (regs e 1 0x10) (regs e 0 0x41)\<rparr>"
    and "xfers (snd (snd (pamir_ai_i2c_sound_get_volume d e))) =
        xfers e @ [Write_byte 0x00 0x01, Read_byte 0x10, Write_byte 0x00 0x00, Read_byte 0x41]"
    by simp_all
  note r = set_then_get_volume_ok [OF n, of d]
  note q = set_then_get_volume_data [OF n, of d]
  from r(1) show "fst (set_then_get_volume d e p) = 0" "fst (set_then_get_volume d e 0) = 0"
    "fst (set_then_get_volume d e 100) = 0" "fst (set_then_get_volume d e 50) = 0"
    by simp_all
  from q(1) [of p] show "fst (snd (set_then_get_volume d e p)) =
        d\<lparr>volume := decode_volume (fst (encode_volume (clamp_percent p)))
                                  (snd (encode_volume (clamp_percent p)))\<rparr>"
    by (simp add: round_trip_volume_def)
  from q(2) [of p] show "xfers (snd (snd (set_then_get_volume d e p))) =
        xfers e @ write_ops (volume_writes (clamp_percent p)) @
          [Write_byte 0x00 0x01, Read_byte 0x10, Write_byte 0x00 0x00, Read_byte 0x41]"
    by simp
  from r(2) [of 0] show "volume (fst (snd (set_then_get_volume d e 0))) = 0"
    by (simp add: c round_trip_values)
  from r(2) [of 100]
  show "volume (fst (snd (set_then_get_volume d e 100))) = 100"
    "91 \<le> uint (volume (fst (snd (set_then_get_volume d e 100))))"
    "uint (volume (fst (snd (set_then_get_volume d e 100)))) \<le> 100"
    by (simp_all add: c round_trip_values)
  from r(2) [of 50]
  show "volume (fst (snd (set_then_get_volume d e 50))) = 48"
    "21 \<le> uint (volume (fst (snd (set_then_get_volume d e 50))))"
    "uint (volume (fst (snd (set_then_get_volume d e 50)))) \<le> 60"
    by (simp_all add: c round_trip_values)
qed

theorem volume_round_trip_witness:
  "never_fails (fresh_codec []) \<and>
   fst (set_then_get_volume \<lparr>volume = 50, input_gain = 50\<rparr> (fresh_codec []) 0) = 0 \<and>
   volume (fst (snd (set_then_get_volume \<lparr>volume = 50, input_gain = 50\<rparr> (fresh_codec []) 0))) = 0 \<and>
   volume (fst (snd (set_then_get_volume \<lparr>volume = 50, input_gain = 50\<rparr> (fresh_codec []) 100))) = 100 \<and>
   fst (snd (set_then_get_volume \<lparr>volume = 7, input_gain = 50\<rparr> (fresh_codec []) 50)) =
     \<lparr>volume = 48, input_gain = 50\<rparr> \<and>
   xfers (snd (snd (set_then_get_volume \<lparr>volume = 7, input_gain = 50\<rparr> (fresh_codec []) 50))) =
     [Write_byte 0x00 0x01, Write_byte 0x10 0x0E, Write_byte 0x11 0x0E, Write_byte 0x12 0x0E,
      Write_byte 0x13 0x0E, Write_byte 0x00 0x00, Write_byte 0x41 0x00, Write_byte 0x42 0x00,
      Write_byte 0x00 0x01, Read_byte 0x10, Write_byte 0x00 0x00, Read_byte 0x41] \<and>
   fst (snd (pamir_ai_i2c_sound_get_volume \<lparr>volume = 7, input_gain = 50\<rparr> (fresh_codec []))) =
     \<lparr>volume = 21, input_gain = 50\<rparr>"
proof -
  have n: "never_fails (fresh_codec [])"
    by (simp add: never_fails_def fresh_codec_fields)
  have c: "clamp_percent 50 = 50" by (simp add: clamp_percent_def)
  have v: "encode_volume 50 = (0x0E, 0x00)"
    by (simp add: encode_volume_def or_assign_def to_u8_def c_div_def)
  have dv: "decode_volume 0x0E 0x00 = 48" "decode_volume 0x00 0x00 = 21"
    by (simp_all add: decode_volume_def to_u8_def c_div_def)
  from n volume_round_trip_tiers [of "fresh_codec []" "\<lparr>volume = 50, input_gain = 50\<rparr>" 50]
    volume_round_trip_tiers [of "fresh_codec []" "\<lparr>volume = 7, input_gain = 50\<rparr>" 50]
  show ?thesis
    by (simp add: c v dv fresh_codec_fields write_ops_def volume_writes_def)
qed

end
